theory Spec2Isabelle
  imports Main
begin

section \<open>Data model\<close>

text \<open>
  The structs of \<^verbatim>\<open>internal/domain\<close> with the fields that
  \<^verbatim>\<open>internal/irc/service.go\<close> reads. A Go slice that may be \<^verbatim>\<open>nil\<close> is an
  \<open>option\<close> of a list: \<open>None\<close> is \<^verbatim>\<open>nil\<close>, \<open>Some []\<close> an empty, non-nil slice.
\<close>

record NickServ =
  Account :: string
  Password :: string

record IrcChannel =
  ChID :: int
  ChEnabled :: bool
  ChName :: string
  ChPassword :: string
  ChDetached :: bool

record IrcNetwork =
  ID :: int
  Name :: string
  Enabled :: bool
  Server :: string
  Port :: int
  TLS :: bool
  Pass :: string
  InviteCommand :: string
  NickServ :: NickServ
  Channels :: "IrcChannel list option"

text \<open>Ranging over a slice: a \<^verbatim>\<open>nil\<close> slice has no elements.\<close>

definition elems :: "'a list option \<Rightarrow> 'a list" where
  "elems sl = (case sl of None \<Rightarrow> [] | Some xs \<Rightarrow> xs)"

text \<open>\<^verbatim>\<open>type handlerKey struct { server string; nick string }\<close>\<close>

record handlerKey =
  server :: string
  nick :: string

datatype error = Error string

section \<open>Indexer definitions\<close>

text \<open>
  The regular expressions of the definitions under \<^verbatim>\<open>internal/indexer/definitions\<close>
  are written in the syntax of Go's \<^verbatim>\<open>regexp\<close>. The fragment below covers the pattern
  of \<^verbatim>\<open>red.yaml\<close>: single characters and character classes, sequence, alternation, the
  greedy \<^verbatim>\<open>?\<close> on any expression, the greedy \<^verbatim>\<open>*\<close> and \<^verbatim>\<open>+\<close> on a character class, and
  numbered capture groups (a \<^verbatim>\<open>(?:...)\<close> group is its body).
\<close>

datatype cclass =
    Lit char
  | AnyChar
  | OneOf string
  | Digit
  | Space

datatype rex =
    Atom cclass
  | Eps
  | Seq rex rex
  | Alt rex rex
  | Opt rex
  | Star cclass
  | Plus cclass
  | Group nat rex

text \<open>
  One entry of \<^verbatim>\<open>parse.lines\<close> (\<^verbatim>\<open>pattern\<close>, \<^verbatim>\<open>vars\<close>, the optional \<^verbatim>\<open>mappings\<close>) and
  the fields of a definition that the parser and the IRC supervisor use.
\<close>

record ParseLine =
  Pattern :: rex
  Vars :: "string list"
  Mappings :: "(string \<times> (string \<times> string) list) list"

record IndexerDefinition =
  Identifier :: string
  IrcServer :: string
  ParseLines :: "ParseLine list"
  TorrentURL :: string

section \<open>The handler and the collaborators of the supervisor\<close>

text \<open>
  Every method the supervisor calls on a \<^verbatim>\<open>*Handler\<close>. The supervisor logs and drops
  the error a method returns, so a call is named by its method and arguments only.
\<close>

datatype call =
    H_Run
  | H_Stop
  | H_Restart
  | H_UpdateNetwork IrcNetwork
  | H_SetNetwork IrcNetwork
  | H_HandleNickChange string
  | H_HandleNickServIdentify string string
  | H_HandlePartChannel string
  | H_HandleJoinChannel string string
  | H_InitIndexers "IndexerDefinition list"

text \<open>
  What a supervisor operation does to the outside, in program order: \<open>Call k c\<close> is the
  method \<open>c\<close> called on the handler stored under \<open>k\<close> and run to its return;
  \<open>Go k c\<close> is \<^verbatim>\<open>go func() { handler.c() }()\<close>, a task started and not awaited.
\<close>

datatype event =
    Call handlerKey call
  | Go handlerKey call

text \<open>
  The handler (\<^verbatim>\<open>handler.go\<close>), the repository and the indexer service live outside
  \<^verbatim>\<open>service.go\<close>, so they are parameters: \<open>'h\<close> is the handler object, \<open>'r\<close> the
  state of the repository. \<open>Connected\<close> is \<^verbatim>\<open>handler.client.Connected()\<close>, \<open>GetNetwork\<close>
  the network snapshot the handler holds, and \<open>perform c h\<close> the handler after the call
  \<open>c\<close> has returned. A repository call returns its Go results together with the
  repository's next state.
\<close>

record ('h, 'r) env =
  Connected :: "'h \<Rightarrow> bool"
  GetNetwork :: "'h \<Rightarrow> IrcNetwork"
  NewHandler :: "IrcNetwork \<Rightarrow> IndexerDefinition list \<Rightarrow> 'h"
  perform :: "call \<Rightarrow> 'h \<Rightarrow> 'h"
  GetIndexersByIRCNetwork :: "string \<Rightarrow> IndexerDefinition list"
  ListChannels :: "int \<Rightarrow> 'r \<Rightarrow> (IrcChannel list option \<times> error option) \<times> 'r"
  StoreNetworkChannels :: "int \<Rightarrow> IrcChannel list option \<Rightarrow> 'r \<Rightarrow> error option \<times> 'r"
  repo_UpdateNetwork :: "IrcNetwork \<Rightarrow> 'r \<Rightarrow> error option \<times> 'r"

text \<open>
  \<^verbatim>\<open>type service struct\<close>: the repository, the indexer map, the handlers keyed by
  (server, nick) and the wait group's counter. The mutex is not modelled: every
  operation below runs alone.
\<close>

record ('h, 'r) service =
  repo :: 'r
  indexerMap :: "string \<rightharpoonup> string"
  handlers :: "handlerKey \<rightharpoonup> 'h"
  stopWG :: int

text \<open>
  An operation returns its Go error (\<open>None\<close> is \<^verbatim>\<open>nil\<close>), the events it caused and
  the supervisor afterwards.
\<close>

type_synonym ('h, 'r) outcome = "error option \<times> event list \<times> ('h, 'r) service"

text \<open>
  A synchronous method call on the handler that the map holds under \<open>k\<close>: the handler
  is a pointer, so the call changes the object the map refers to.
\<close>

definition invoke ::
  "('h, 'r) env \<Rightarrow> handlerKey \<Rightarrow> call \<Rightarrow> event list \<times> ('h, 'r) service
    \<Rightarrow> event list \<times> ('h, 'r) service" where
  "invoke E k c st =
     (case st of (evs, s) \<Rightarrow>
        (case handlers s k of
           None \<Rightarrow> (evs, s)
         | Some h \<Rightarrow> (evs @ [Call k c], s\<lparr>handlers := (handlers s)(k \<mapsto> perform E c h)\<rparr>)))"

section \<open>Stopping handlers\<close>

definition StopNetwork :: "('h, 'r) env \<Rightarrow> handlerKey \<Rightarrow> ('h, 'r) service \<Rightarrow> ('h, 'r) outcome" where
  "StopNetwork E key s =
     (case handlers s key of
        Some handler \<Rightarrow>
          (case invoke E key H_Stop ([], s) of (evs, s1) \<Rightarrow> (None, evs, s1))
      | None \<Rightarrow> (None, [], s))"

definition StopAndRemoveNetwork ::
  "('h, 'r) env \<Rightarrow> handlerKey \<Rightarrow> ('h, 'r) service \<Rightarrow> ('h, 'r) outcome" where
  "StopAndRemoveNetwork E key s =
     (case handlers s key of
        Some handler \<Rightarrow>
          (case invoke E key H_Stop ([], s) of
             (evs, s1) \<Rightarrow> (None, evs, s1\<lparr>handlers := (handlers s1)(key := None)\<rparr>))
      | None \<Rightarrow> (None, [], s))"

definition StopNetworkIfRunning ::
  "('h, 'r) env \<Rightarrow> handlerKey \<Rightarrow> ('h, 'r) service \<Rightarrow> ('h, 'r) outcome" where
  "StopNetworkIfRunning E key s =
     (case handlers s key of
        Some handler \<Rightarrow>
          (case invoke E key H_Stop ([], s) of (evs, s1) \<Rightarrow> (None, evs, s1))
      | None \<Rightarrow> (None, [], s))"

text \<open>
  \<^verbatim>\<open>StopHandlers\<close> ranges over the map and calls \<^verbatim>\<open>handler.Stop()\<close> on each handler.
  Go leaves the order of a map range open, so the order is the argument \<open>ks\<close>, an
  enumeration of the keys.
\<close>

definition StopHandlers ::
  "('h, 'r) env \<Rightarrow> handlerKey list \<Rightarrow> ('h, 'r) service \<Rightarrow> event list \<times> ('h, 'r) service" where
  "StopHandlers E ks s = fold (\<lambda>k st. invoke E k H_Stop st) ks ([], s)"

section \<open>Starting and reconciling a network\<close>

definition keyOf :: "IrcNetwork \<Rightarrow> handlerKey" where
  "keyOf network = \<lparr>server = Server network, nick = Account (NickServ network)\<rparr>"

text \<open>
  \<^verbatim>\<open>startNetwork\<close>: a handler already in the map is run again, in a task of its own,
  when its client is not connected; otherwise a handler is built from the network with
  the channels the repository lists (the error of \<^verbatim>\<open>ListChannels\<close> is logged only),
  stored under the key, and run in a task of its own between \<^verbatim>\<open>stopWG.Add(1)\<close> and
  \<^verbatim>\<open>stopWG.Done()\<close>.
\<close>

definition startNetwork ::
  "('h, 'r) env \<Rightarrow> IrcNetwork \<Rightarrow> ('h, 'r) service \<Rightarrow> ('h, 'r) outcome" where
  "startNetwork E network s =
     (case handlers s (keyOf network) of
        Some existingHandler \<Rightarrow>
          (if \<not> Connected E existingHandler
           then (None, [Go (keyOf network) H_Run], s)
           else (None, [], s))
      | None \<Rightarrow>
          (case ListChannels E (ID network) (repo s) of
             ((channels, err), r1) \<Rightarrow>
               (let network1 = network\<lparr>Channels := channels\<rparr>;
                    definitions = GetIndexersByIRCNetwork E (Server network1);
                    handler = NewHandler E network1 definitions;
                    s1 = s\<lparr>repo := r1, handlers := (handlers s)(keyOf network1 \<mapsto> handler)\<rparr>;
                    s2 = s1\<lparr>stopWG := stopWG s1 + 1\<rparr>;
                    s3 = s2\<lparr>stopWG := stopWG s2 - 1\<rparr>
                in (None, [Go (keyOf network1) H_Run], s3))))"

text \<open>
  The chain of comparisons that sets \<^verbatim>\<open>restartNeeded\<close>; \<open>handler\<close> is the network the
  handler holds (\<^verbatim>\<open>existingHandler.GetNetwork()\<close>), \<open>network\<close> the updated one.
\<close>

definition restartNeeded :: "IrcNetwork \<Rightarrow> IrcNetwork \<Rightarrow> bool" where
  "restartNeeded handler network =
     (if Server handler \<noteq> Server network then True
      else if Port handler \<noteq> Port network then True
      else if TLS handler \<noteq> TLS network then True
      else if InviteCommand handler \<noteq> InviteCommand network then True
      else False)"

text \<open>
  The three loops over the channels. The two \<^verbatim>\<open>map[string]struct{}\<close> are sets of
  names, keyed by \<^verbatim>\<open>channel.Name\<close> as it is written.
\<close>

definition expectedChannels :: "IrcNetwork \<Rightarrow> string set" where
  "expectedChannels network =
     fold (\<lambda>channel m. insert (ChName channel) m) (elems (Channels network)) {}"

fun leaveLoop ::
  "string set \<Rightarrow> IrcChannel list \<Rightarrow> string set \<times> string list \<Rightarrow> string set \<times> string list" where
  "leaveLoop expected [] acc = acc"
| "leaveLoop expected (handlerChan # rest) (handlerChannels, channelsToLeave) =
     (if ChName handlerChan \<in> expected
      then leaveLoop expected rest (insert (ChName handlerChan) handlerChannels, channelsToLeave)
      else leaveLoop expected rest
             (insert (ChName handlerChan) handlerChannels, channelsToLeave @ [ChName handlerChan]))"

fun joinLoop :: "string set \<Rightarrow> IrcChannel list \<Rightarrow> IrcChannel list \<Rightarrow> IrcChannel list" where
  "joinLoop handlerChannels [] channelsToJoin = channelsToJoin"
| "joinLoop handlerChannels (channel # rest) channelsToJoin =
     (if ChName channel \<in> handlerChannels
      then joinLoop handlerChannels rest channelsToJoin
      else joinLoop handlerChannels rest (channelsToJoin @ [channel]))"

definition channelsToLeave :: "IrcNetwork \<Rightarrow> IrcNetwork \<Rightarrow> string list" where
  "channelsToLeave handler network =
     snd (leaveLoop (expectedChannels network) (elems (Channels handler)) ({}, []))"

definition channelsToJoin :: "IrcNetwork \<Rightarrow> IrcNetwork \<Rightarrow> IrcChannel list" where
  "channelsToJoin handler network =
     joinLoop (fst (leaveLoop (expectedChannels network) (elems (Channels handler)) ({}, [])))
       (elems (Channels network)) []"

text \<open>
  \<^verbatim>\<open>checkIfNetworkRestartNeeded\<close>. With no handler under the key the network is
  started. A handler whose client is not connected is left alone. Otherwise the
  handler's network is read once and compared with the updated one.
\<close>

definition checkIfNetworkRestartNeeded ::
  "('h, 'r) env \<Rightarrow> IrcNetwork \<Rightarrow> ('h, 'r) service \<Rightarrow> ('h, 'r) outcome" where
  "checkIfNetworkRestartNeeded E network s =
     (case handlers s (keyOf network) of
        Some existingHandler \<Rightarrow>
          (if Connected E existingHandler then
             (let handler = GetNetwork E existingHandler in
              if restartNeeded handler network then
                (case invoke E (keyOf network) (H_UpdateNetwork network) ([], s) of
                   (evs, s1) \<Rightarrow> (None, evs @ [Go (keyOf network) H_Restart], s1))
              else
                (let st1 =
                       (if Account (NickServ handler) \<noteq> Account (NickServ network) then
                          invoke E (keyOf network)
                            (H_HandleNickChange (Account (NickServ network))) ([], s)
                        else if Password (NickServ handler) \<noteq> Password (NickServ network) then
                          invoke E (keyOf network)
                            (H_HandleNickServIdentify (Account (NickServ network))
                               (Password (NickServ network))) ([], s)
                        else ([], s));
                     st2 = fold (\<lambda>leaveChannel.
                                   invoke E (keyOf network) (H_HandlePartChannel leaveChannel))
                             (channelsToLeave handler network) st1;
                     st3 = fold (\<lambda>joinChannel.
                                   invoke E (keyOf network)
                                     (H_HandleJoinChannel (ChName joinChannel) (ChPassword joinChannel)))
                             (channelsToJoin handler network) st2;
                     st4 = invoke E (keyOf network) (H_SetNetwork network) st3;
                     definitions = GetIndexersByIRCNetwork E (Server network);
                     st5 = invoke E (keyOf network) (H_InitIndexers definitions) st4
                 in (None, fst st5, snd st5)))
           else (None, [], s))
      | None \<Rightarrow>
          (case startNetwork E network s of
             (err, evs, s1) \<Rightarrow> (None, evs, s1)))"

text \<open>
  \<^verbatim>\<open>UpdateNetwork\<close>: the channels are stored when the slice is not \<^verbatim>\<open>nil\<close>, then the
  network; an error of either call is returned at once. Then the enabled network is
  reconciled and the disabled one stopped and removed.
\<close>

definition UpdateNetwork ::
  "('h, 'r) env \<Rightarrow> IrcNetwork \<Rightarrow> ('h, 'r) service \<Rightarrow> ('h, 'r) outcome" where
  "UpdateNetwork E network s =
     (case (if Channels network \<noteq> None
            then StoreNetworkChannels E (ID network) (Channels network) (repo s)
            else (None, repo s)) of
        (Some err, r1) \<Rightarrow> (Some err, [], s\<lparr>repo := r1\<rparr>)
      | (None, r1) \<Rightarrow>
          (case repo_UpdateNetwork E network r1 of
             (Some err, r2) \<Rightarrow> (Some err, [], s\<lparr>repo := r2\<rparr>)
           | (None, r2) \<Rightarrow>
               (if Enabled network then
                  (case checkIfNetworkRestartNeeded E network (s\<lparr>repo := r2\<rparr>) of
                     (Some err, evs, s1) \<Rightarrow>
                       (Some (Error (''could not restart network: '' @ Name network)), evs, s1)
                   | (None, evs, s1) \<Rightarrow> (None, evs, s1))
                else
                  (case StopAndRemoveNetwork E (keyOf network) (s\<lparr>repo := r2\<rparr>) of
                     (Some err, evs, s1) \<Rightarrow>
                       (Some (Error (''could not stop network: '' @ Name network)), evs, s1)
                   | (None, evs, s1) \<Rightarrow> (None, evs, s1)))))"

section \<open>The announce parser\<close>

subsection \<open>Matching a regular expression\<close>

text \<open>
  Go's \<^verbatim>\<open>regexp\<close> package (not part of the repository) finds the leftmost match and,
  among the matches that start there, the one a backtracking search finds first: a
  greedy operator tries the longest repetition first. A state is the offset reached, the
  input that is left, and the offsets of the groups matched so far. \<open>ms r st k\<close> matches
  \<open>r\<close> at the state \<open>st\<close> and hands each state it can reach to the rest of the search
  \<open>k\<close>, in the order of preference, until \<open>k\<close> succeeds. The input is taken byte by
  byte, which is Go's rune by rune on ASCII input.
\<close>

type_synonym mstate = "nat \<times> string \<times> (nat \<rightharpoonup> nat \<times> nat)"

fun matchClass :: "cclass \<Rightarrow> char \<Rightarrow> bool" where
  "matchClass (Lit x) c = (c = x)"
| "matchClass AnyChar c = (c \<noteq> CHR 0x0A)"
| "matchClass (OneOf xs) c = (c \<in> set xs)"
| "matchClass Digit c = (c \<in> set ''0123456789'')"
| "matchClass Space c = (c \<in> set [CHR 0x09, CHR 0x0A, CHR 0x0C, CHR 0x0D, CHR '' ''])"

fun star :: "cclass \<Rightarrow> mstate \<Rightarrow> (mstate \<Rightarrow> 'a option) \<Rightarrow> 'a option" where
  "star c (p, [], m) k = k (p, [], m)"
| "star c (p, x # xs, m) k =
     (if matchClass c x
      then (case star c (Suc p, xs, m) k of
              Some res \<Rightarrow> Some res
            | None \<Rightarrow> k (p, x # xs, m))
      else k (p, x # xs, m))"

fun ms :: "rex \<Rightarrow> mstate \<Rightarrow> (mstate \<Rightarrow> 'a option) \<Rightarrow> 'a option" where
  "ms (Atom c) (p, s, m) k =
     (case s of [] \<Rightarrow> None | x # xs \<Rightarrow> if matchClass c x then k (Suc p, xs, m) else None)"
| "ms Eps st k = k st"
| "ms (Seq a b) st k = ms a st (\<lambda>st1. ms b st1 k)"
| "ms (Alt a b) st k = (case ms a st k of Some res \<Rightarrow> Some res | None \<Rightarrow> ms b st k)"
| "ms (Opt a) st k = (case ms a st k of Some res \<Rightarrow> Some res | None \<Rightarrow> k st)"
| "ms (Star c) st k = star c st k"
| "ms (Plus c) (p, s, m) k =
     (case s of
        [] \<Rightarrow> None
      | x # xs \<Rightarrow> if matchClass c x then star c (Suc p, xs, m) k else None)"
| "ms (Group i a) (p, s, m) k =
     ms a (p, s, m) (\<lambda>(p1, s1, m1). k (p1, s1, m1(i \<mapsto> (p, p1))))"

text \<open>The leftmost match: the first offset at which the expression matches at all.\<close>

fun findFrom :: "rex \<Rightarrow> nat \<Rightarrow> string \<Rightarrow> (nat \<rightharpoonup> nat \<times> nat) option" where
  "findFrom r p [] =
     ms r (p, [], Map.empty) (\<lambda>(p1, s1, m1). Some (m1(0 \<mapsto> (p, p1))))"
| "findFrom r p (x # xs) =
     (case ms r (p, x # xs, Map.empty) (\<lambda>(p1, s1, m1). Some (m1(0 \<mapsto> (p, p1)))) of
        Some m \<Rightarrow> Some m
      | None \<Rightarrow> findFrom r (Suc p) xs)"

fun numSubexp :: "rex \<Rightarrow> nat" where
  "numSubexp (Seq a b) = max (numSubexp a) (numSubexp b)"
| "numSubexp (Alt a b) = max (numSubexp a) (numSubexp b)"
| "numSubexp (Opt a) = numSubexp a"
| "numSubexp (Group i a) = max i (numSubexp a)"
| "numSubexp r = 0"

text \<open>
  \<^verbatim>\<open>FindStringSubmatch\<close>: \<^verbatim>\<open>nil\<close> when nothing matches, otherwise the text of the whole
  match followed by the text of every group, the empty string for a group that took no
  part in the match.
\<close>

definition FindStringSubmatch :: "rex \<Rightarrow> string \<Rightarrow> string list option" where
  "FindStringSubmatch r s =
     (case findFrom r 0 s of
        None \<Rightarrow> None
      | Some m \<Rightarrow>
          Some (map (\<lambda>i. case m i of
                            None \<Rightarrow> []
                          | Some (a, b) \<Rightarrow> take (b - a) (drop a s))
                  [0 ..< Suc (numSubexp r)]))"

subsection \<open>The URL template\<close>

definition trimSpaces :: "string \<Rightarrow> string" where
  "trimSpaces s =
     rev (dropWhile (\<lambda>c. c = CHR '' '') (rev (dropWhile (\<lambda>c. c = CHR '' '') s)))"

definition lookupVar :: "(string \<rightharpoonup> string) \<Rightarrow> string \<Rightarrow> string" where
  "lookupVar d token =
     (case trimSpaces token of
        [] \<Rightarrow> []
      | c # name \<Rightarrow>
          if c = CHR ''.'' then (case d name of None \<Rightarrow> [] | Some v \<Rightarrow> v) else [])"

text \<open>
  Modelled from the spec: the template engine is not among the sources. The spec (4.3,
  step 5) renders \<^verbatim>\<open>match.torrenturl\<close> "via a simple \<^verbatim>\<open>{{ .name }}\<close> template", a
  missing variable giving the empty string. \<open>renderText\<close> copies the template up to
  \<^verbatim>\<open>{{\<close>; \<open>renderToken\<close> collects the token up to \<^verbatim>\<open>}}\<close> and substitutes it.
\<close>

fun renderText :: "(string \<rightharpoonup> string) \<Rightarrow> string \<Rightarrow> string"
  and renderToken :: "(string \<rightharpoonup> string) \<Rightarrow> string \<Rightarrow> string \<Rightarrow> string" where
  "renderText d [] = []"
| "renderText d (c # cs) =
     (case cs of
        [] \<Rightarrow> [c]
      | c2 # cs2 \<Rightarrow>
          if c = CHR ''{'' \<and> c2 = CHR ''{'' then renderToken d [] cs2
          else c # renderText d cs)"
| "renderToken d tok [] = []"
| "renderToken d tok (c # cs) =
     (case cs of
        [] \<Rightarrow> []
      | c2 # cs2 \<Rightarrow>
          if c = CHR ''}'' \<and> c2 = CHR ''}'' then lookupVar d tok @ renderText d cs2
          else renderToken d (tok @ [c]) cs)"

text \<open>
  Modelled from the spec: a URL that is empty or "lacks a scheme" is invalid. A scheme is
  a letter followed by letters, digits, \<^verbatim>\<open>+\<close>, \<^verbatim>\<open>-\<close> or \<^verbatim>\<open>.\<close>, up to a colon.
\<close>

definition isLetter :: "char \<Rightarrow> bool" where
  "isLetter c = (c \<in> set ''abcdefghijklmnopqrstuvwxyzABCDEFGHIJKLMNOPQRSTUVWXYZ'')"

definition isSchemeChar :: "char \<Rightarrow> bool" where
  "isSchemeChar c = (isLetter c \<or> c \<in> set ''0123456789+-.'')"

definition hasScheme :: "string \<Rightarrow> bool" where
  "hasScheme u =
     (case takeWhile (\<lambda>c. c \<noteq> CHR '':'') u of
        [] \<Rightarrow> False
      | c # cs \<Rightarrow> isLetter c \<and> list_all isSchemeChar cs \<and> length (c # cs) < length u)"

subsection \<open>Parsing an announcement\<close>

record Release =
  Indexer :: string
  TorrentName :: string
  Category :: string
  Year :: string
  Tags :: string
  URL :: string
  ReleaseVars :: "(string \<times> string) list"

datatype parseResult = NotApplicable | InvalidRelease | Parsed Release

definition applyMappings ::
  "(string \<times> (string \<times> string) list) list \<Rightarrow> (string \<times> string) list \<Rightarrow> (string \<times> string) list" where
  "applyMappings maps vars =
     map (\<lambda>(name, v).
            case map_of maps name of
              None \<Rightarrow> (name, v)
            | Some table \<Rightarrow> (name, case map_of table v of None \<Rightarrow> [] | Some v1 \<Rightarrow> v1))
       vars"

definition var :: "(string \<times> string) list \<Rightarrow> string \<Rightarrow> string" where
  "var vars name = (case map_of vars name of None \<Rightarrow> [] | Some v \<Rightarrow> v)"

text \<open>
  Modelled from the spec: the announce parser is not among the sources. The steps are
  those of the spec (4.3) for a definition of type \<^verbatim>\<open>single\<close>: match the pattern (a miss
  is \<open>NotApplicable\<close>); bind the names of \<^verbatim>\<open>vars\<close> positionally to the capture groups;
  apply the mappings; render the URL template over the captured variables and the
  user's settings, where a captured variable wins over a setting of the same name; an
  empty URL or one without a scheme is \<open>InvalidRelease\<close>; otherwise emit the release
  with every variable.
\<close>

definition parseLine ::
  "IndexerDefinition \<Rightarrow> ParseLine \<Rightarrow> (string \<times> string) list \<Rightarrow> string \<Rightarrow> parseResult" where
  "parseLine def rule settings rawLine =
     (case FindStringSubmatch (Pattern rule) rawLine of
        None \<Rightarrow> NotApplicable
      | Some groups \<Rightarrow>
          (let captured = applyMappings (Mappings rule) (zip (Vars rule) (tl groups));
               url = renderText (map_of (captured @ settings)) (TorrentURL def)
           in if url = [] \<or> \<not> hasScheme url then InvalidRelease
              else Parsed \<lparr>Indexer = Identifier def,
                           TorrentName = var captured ''torrentName'',
                           Category = var captured ''category'',
                           Year = var captured ''year'',
                           Tags = var captured ''tags'',
                           URL = url,
                           ReleaseVars = captured\<rparr>))"

fun parseLines ::
  "IndexerDefinition \<Rightarrow> ParseLine list \<Rightarrow> (string \<times> string) list \<Rightarrow> string \<Rightarrow> parseResult" where
  "parseLines def [] settings rawLine = NotApplicable"
| "parseLines def (rule # rules) settings rawLine =
     (case parseLine def rule settings rawLine of
        NotApplicable \<Rightarrow> parseLines def rules settings rawLine
      | res \<Rightarrow> res)"

definition parse :: "IndexerDefinition \<Rightarrow> (string \<times> string) list \<Rightarrow> string \<Rightarrow> parseResult" where
  "parse def settings rawLine = parseLines def (ParseLines def) settings rawLine"

subsection \<open>The Redacted definition\<close>

definition lit :: "string \<Rightarrow> rex" where
  "lit s = foldr (\<lambda>c r. Seq (Atom (Lit c)) r) s Eps"

definition seq :: "rex list \<Rightarrow> rex" where
  "seq rs = foldr Seq rs Eps"

text \<open>
  \<^verbatim>\<open>red.yaml\<close>, \<^verbatim>\<open>parse.lines[0].pattern\<close>:
  \<^verbatim>\<open>(.*) (?:\[(.*)\] \[(.*)\] - (.*))? -\s+https?:.*[&\?]id=(\d+) \/ (https?\:\/\/.*)\s* -\s*(.*)\<close>
  piece by piece, the groups numbered by their opening parenthesis.
\<close>

definition redPattern :: rex where
  "redPattern = seq
     [Group 1 (Star AnyChar), lit '' '',
      Opt (seq [lit ''['', Group 2 (Star AnyChar), lit ''] '',
                lit ''['', Group 3 (Star AnyChar), lit ''] - '',
                Group 4 (Star AnyChar)]),
      lit '' -'', Plus Space,
      lit ''http'', Opt (Atom (Lit CHR ''s'')), lit '':'', Star AnyChar,
      Atom (OneOf ''&?''), lit ''id='', Group 5 (Plus Digit), lit '' / '',
      Group 6 (seq [lit ''http'', Opt (Atom (Lit CHR ''s'')), lit ''://'', Star AnyChar]),
      Star Space, lit '' -'', Star Space, Group 7 (Star AnyChar)]"

definition redacted :: IndexerDefinition where
  "redacted =
     \<lparr>Identifier = ''redacted'',
      IrcServer = ''irc.scratch-network.net'',
      ParseLines =
        [\<lparr>Pattern = redPattern,
          Vars = [''torrentName'', ''year'', ''category'', ''releaseTags'', ''torrentId'',
                  ''baseUrl'', ''tags''],
          Mappings = []\<rparr>],
      TorrentURL =
        ''{{ .baseUrl }}&authkey={{ .authkey }}&torrent_pass={{ .torrent_pass }}''\<rparr>"

definition redLine :: string where
  "redLine = ''Artist - Album [2008] [Single] - FLAC / Lossless / Log / 100% / Cue / CD - https://redacted.ch/torrents.php?id=123 / https://redacted.ch/torrents.php?action=download&id=123 - hip.hop,rhythm.and.blues,2000s''"

definition redSettings :: "(string \<times> string) list" where
  "redSettings = [(''authkey'', ''AK''), (''torrent_pass'', ''TP'')]"


section \<open>HTTP authentication\<close>

text \<open>
  \<^verbatim>\<open>internal/http/auth.go\<close>. The session library (gorilla/sessions) and
  \<^verbatim>\<open>net/http\<close> are outside the repository; they are modelled by what the handlers rely
  on. A session's values are keyed by strings here, the only keys the handlers use, and
  a value is a Go \<^verbatim>\<open>interface{}\<close> holding a boolean or something else.
\<close>

datatype SameSite = SameSiteDefaultMode | SameSiteLaxMode | SameSiteStrictMode | SameSiteNoneMode

record Options =
  Path :: string
  HttpOnly :: bool
  Secure :: bool
  SameSite :: SameSite

datatype ivalue = VBool bool | VString string

record Session =
  SessionName :: string
  Values :: "string \<rightharpoonup> ivalue"
  SessionOptions :: Options

text \<open>A cookie of the store carries the session's values and the options it was saved with.\<close>

record Cookie =
  CookieName :: string
  CookieValues :: "string \<rightharpoonup> ivalue"
  CookieOptions :: Options

text \<open>
  A request: its body, its headers by canonical name, and the session values of each
  cookie of it that the store decodes (a cookie the store rejects counts as absent:
  the handlers drop the error of \<^verbatim>\<open>cookieStore.Get\<close>).
\<close>

record Request =
  Body :: string
  Header :: "string \<rightharpoonup> string"
  Cookies :: "string \<rightharpoonup> (string \<rightharpoonup> ivalue)"

text \<open>
  A response writer: the status line once written, the cookies set before it, the body.
  \<^verbatim>\<open>WriteHeader\<close> takes effect once; a header added after it is not sent.
\<close>

record ResponseWriter =
  Status :: "int option"
  SetCookies :: "Cookie list"
  Written :: string

definition newResponseWriter :: ResponseWriter where
  "newResponseWriter = \<lparr>Status = None, SetCookies = [], Written = []\<rparr>"

definition WriteHeader :: "ResponseWriter \<Rightarrow> int \<Rightarrow> ResponseWriter" where
  "WriteHeader w code = (if Status w = None then w\<lparr>Status := Some code\<rparr> else w)"

definition SetCookie :: "ResponseWriter \<Rightarrow> Cookie \<Rightarrow> ResponseWriter" where
  "SetCookie w c = (if Status w = None then w\<lparr>SetCookies := SetCookies w @ [c]\<rparr> else w)"

text \<open>\<^verbatim>\<open>http.Error\<close>: the status, then the message and a newline as the body.\<close>

definition http_Error :: "ResponseWriter \<Rightarrow> string \<Rightarrow> int \<Rightarrow> ResponseWriter" where
  "http_Error w msg code =
     (let w1 = WriteHeader w code in w1\<lparr>Written := Written w1 @ msg @ [CHR 0x0A]\<rparr>)"

text \<open>\<^verbatim>\<open>r.Header.Get\<close>: the value of the header, the empty string when it is absent.\<close>

definition Header_Get :: "Request \<Rightarrow> string \<Rightarrow> string" where
  "Header_Get r name = (case Header r name of None \<Rightarrow> [] | Some v \<Rightarrow> v)"

text \<open>
  \<^verbatim>\<open>cookieStore.Get\<close>: the session of the request's cookie of that name, or a new empty
  session; either way with a copy of the store's options at this moment.
  \<^verbatim>\<open>session.Save\<close>: the session as a cookie on the response; the handlers drop its
  error, and it is taken to succeed.
\<close>

definition cookieStore_Get :: "Options \<Rightarrow> Request \<Rightarrow> string \<Rightarrow> Session" where
  "cookieStore_Get storeOptions r name =
     \<lparr>SessionName = name,
      Values = (case Cookies r name of None \<Rightarrow> Map.empty | Some vals \<Rightarrow> vals),
      SessionOptions = storeOptions\<rparr>"

definition session_Save :: "Session \<Rightarrow> ResponseWriter \<Rightarrow> ResponseWriter" where
  "session_Save session w =
     SetCookie w \<lparr>CookieName = SessionName session, CookieValues = Values session,
                  CookieOptions = SessionOptions session\<rparr>"

text \<open>
  Modelled from the spec: \<^verbatim>\<open>encoder.StatusResponse\<close> is not among the sources. With a
  \<^verbatim>\<open>nil\<close> response, as in every call of \<^verbatim>\<open>auth.go\<close>, it answers with the status code
  alone (spec, 6: "Status codes").
\<close>

definition StatusResponse :: "ResponseWriter \<Rightarrow> int \<Rightarrow> ResponseWriter" where
  "StatusResponse w status = WriteHeader w status"

record User =
  Username :: string
  UserPassword :: string

text \<open>
  The handler's collaborators: the JSON decoder applied to the body, the auth service's
  \<^verbatim>\<open>Login\<close>, and \<^verbatim>\<open>config.BaseURL\<close>.
\<close>

record authEnv =
  Decode :: "string \<Rightarrow> error + User"
  Login :: "string \<Rightarrow> string \<Rightarrow> error + User"
  BaseURL :: string

definition StatusBadRequest :: int where "StatusBadRequest = 400"
definition StatusUnauthorized :: int where "StatusUnauthorized = 401"
definition StatusForbidden :: int where "StatusForbidden = 403"
definition StatusNoContent :: int where "StatusNoContent = 204"

text \<open>
  \<^verbatim>\<open>login\<close>. The cookie store's options are shared state: the handler writes them and
  they stay written, so they are passed in and returned.
\<close>

definition login :: "authEnv \<Rightarrow> Options \<Rightarrow> Request \<Rightarrow> ResponseWriter \<Rightarrow> Options \<times> ResponseWriter" where
  "login A storeOptions r w =
     (case Decode A (Body r) of
        Inl err \<Rightarrow> (storeOptions, StatusResponse w StatusBadRequest)
      | Inr data \<Rightarrow>
          (let opts1 = storeOptions\<lparr>HttpOnly := True, SameSite := SameSiteLaxMode,
                                     Path := BaseURL A\<rparr>;
               fwdProto = Header_Get r ''X-Forwarded-Proto'';
               opts2 = (if fwdProto = ''https''
                        then opts1\<lparr>Secure := True, SameSite := SameSiteStrictMode\<rparr>
                        else opts1);
               session = cookieStore_Get opts2 r ''user_session''
           in case Login A (Username data) (UserPassword data) of
                Inl err \<Rightarrow> (opts2, StatusResponse w StatusUnauthorized)
              | Inr user \<Rightarrow>
                  (let session1 = session\<lparr>Values := (Values session)(''authenticated'' \<mapsto> VBool True)\<rparr>;
                       w1 = session_Save session1 w
                   in (opts2, StatusResponse w1 StatusNoContent))))"

definition logout :: "Options \<Rightarrow> Request \<Rightarrow> ResponseWriter \<Rightarrow> ResponseWriter" where
  "logout storeOptions r w =
     (let session = cookieStore_Get storeOptions r ''user_session'';
          session1 = session\<lparr>Values := (Values session)(''authenticated'' \<mapsto> VBool False)\<rparr>;
          w1 = session_Save session1 w
      in StatusResponse w1 StatusNoContent)"

text \<open>
  \<^verbatim>\<open>test\<close>: the type assertion \<^verbatim>\<open>.(bool)\<close> fails on a missing value and on a value
  that is not a boolean.
\<close>

definition test :: "Options \<Rightarrow> Request \<Rightarrow> ResponseWriter \<Rightarrow> ResponseWriter" where
  "test storeOptions r w =
     (let session = cookieStore_Get storeOptions r ''user_session'';
          (auth, ok) = (case Values session ''authenticated'' of
                          Some (VBool b) \<Rightarrow> (b, True)
                        | Some (VString v) \<Rightarrow> (False, False)
                        | None \<Rightarrow> (False, False))
      in if \<not> ok \<or> \<not> auth then http_Error w ''Forbidden'' StatusForbidden
         else StatusResponse w StatusNoContent)"

text \<open>The request a client sends next: it returns the cookies the response set.\<close>

definition withCookies :: "Request \<Rightarrow> Cookie list \<Rightarrow> Request" where
  "withCookies r cs =
     r\<lparr>Cookies := fold (\<lambda>c m. m(CookieName c \<mapsto> CookieValues c)) cs (Cookies r)\<rparr>"


section \<open>Names used to state the properties\<close>

text \<open>The set of channel names of a network, each name as it is written.\<close>

definition names :: "IrcNetwork \<Rightarrow> string set" where
  "names n = ChName ` set (elems (Channels n))"

text \<open>
  \<^verbatim>\<open>strings.ToLower\<close> on ASCII, and the channel difference as the spec words it
  (4.1: "set difference vs. the handler's currently joined channels (both sides
  lowercased)"): a channel leaves when no channel of the network has its lowercased name,
  and joins when no channel of the handler has.
\<close>

definition toLowerChar :: "char \<Rightarrow> char" where
  "toLowerChar c =
     (case map_of (zip ''ABCDEFGHIJKLMNOPQRSTUVWXYZ'' ''abcdefghijklmnopqrstuvwxyz'') c of
        None \<Rightarrow> c
      | Some l \<Rightarrow> l)"

definition ToLower :: "string \<Rightarrow> string" where
  "ToLower s = map toLowerChar s"

definition spec_channelsToLeave :: "IrcNetwork \<Rightarrow> IrcNetwork \<Rightarrow> string list" where
  "spec_channelsToLeave handler network =
     filter (\<lambda>n. ToLower n \<notin> ToLower ` names network) (map ChName (elems (Channels handler)))"

definition spec_channelsToJoin :: "IrcNetwork \<Rightarrow> IrcNetwork \<Rightarrow> IrcChannel list" where
  "spec_channelsToJoin handler network =
     filter (\<lambda>c. ToLower (ChName c) \<notin> ToLower ` names handler) (elems (Channels network))"

section \<open>A concrete handler, repository and supervisor\<close>

text \<open>
  Modelled from the spec: \<^verbatim>\<open>handler.go\<close> is not among the sources. This handler keeps
  what the spec (4.2) says the supervisor can observe: \<^verbatim>\<open>Stop\<close> ends the connection,
  \<^verbatim>\<open>UpdateNetwork\<close> and \<^verbatim>\<open>SetNetwork\<close> swap the network snapshot,
  \<^verbatim>\<open>InitIndexers\<close> replaces the definitions. It instantiates the parameters of the
  supervisor in the examples; the properties are proved for every handler.
\<close>

record Handler =
  h_network :: IrcNetwork
  h_connected :: bool
  h_definitions :: "IndexerDefinition list"

fun handlerMethod :: "call \<Rightarrow> Handler \<Rightarrow> Handler" where
  "handlerMethod H_Stop h = h\<lparr>h_connected := False\<rparr>"
| "handlerMethod (H_UpdateNetwork n) h = h\<lparr>h_network := n\<rparr>"
| "handlerMethod (H_SetNetwork n) h = h\<lparr>h_network := n\<rparr>"
| "handlerMethod (H_InitIndexers ds) h = h\<lparr>h_definitions := ds\<rparr>"
| "handlerMethod c h = h"

text \<open>
  A repository that counts its calls and fails on demand: \<open>failStore\<close> makes
  \<^verbatim>\<open>StoreNetworkChannels\<close> fail, \<open>failUpdate\<close> makes \<^verbatim>\<open>UpdateNetwork\<close> fail.
\<close>

definition testEnv :: "bool \<Rightarrow> bool \<Rightarrow> (Handler, nat) env" where
  "testEnv failStore failUpdate =
     \<lparr>Connected = h_connected,
      GetNetwork = h_network,
      NewHandler = (\<lambda>n ds. \<lparr>h_network = n, h_connected = False, h_definitions = ds\<rparr>),
      perform = handlerMethod,
      GetIndexersByIRCNetwork = (\<lambda>srv. []),
      ListChannels = (\<lambda>i r. ((None, None), Suc r)),
      StoreNetworkChannels =
        (\<lambda>i cs r. (if failStore then Some (Error ''store channels'') else None, Suc r)),
      repo_UpdateNetwork =
        (\<lambda>n r. (if failUpdate then Some (Error ''update network'') else None, Suc r))\<rparr>"

definition chan :: "string \<Rightarrow> IrcChannel" where
  "chan name =
     \<lparr>ChID = 0, ChEnabled = True, ChName = name, ChPassword = [], ChDetached = False\<rparr>"

definition netAB :: IrcNetwork where
  "netAB =
     \<lparr>ID = 1, Name = ''Scratch-Network'', Enabled = True,
      Server = ''irc.scratch-network.net'', Port = 6697, TLS = True, Pass = [],
      InviteCommand = ''Drone enter #red-announce bot key'',
      NickServ = \<lparr>Account = ''bot'', Password = ''pw''\<rparr>,
      Channels = Some [chan ''#a'', chan ''#b'']\<rparr>"

definition netBC :: IrcNetwork where
  "netBC = netAB\<lparr>Channels := Some [chan ''#b'', chan ''#c'']\<rparr>"

definition netUpperA :: IrcNetwork where
  "netUpperA = netAB\<lparr>Channels := Some [chan ''#A'']\<rparr>"

definition netLowerA :: IrcNetwork where
  "netLowerA = netAB\<lparr>Channels := Some [chan ''#a'']\<rparr>"

definition netPort :: IrcNetwork where
  "netPort = netAB\<lparr>Port := 7000\<rparr>"

definition netPass :: IrcNetwork where
  "netPass = netAB\<lparr>Pass := ''secret''\<rparr>"

definition netIdent :: IrcNetwork where
  "netIdent = netAB\<lparr>NickServ := \<lparr>Account = ''bot'', Password = ''new''\<rparr>\<rparr>"

definition netOff :: IrcNetwork where
  "netOff = netAB\<lparr>Enabled := False\<rparr>"

definition liveHandler :: "IrcNetwork \<Rightarrow> Handler" where
  "liveHandler n = \<lparr>h_network = n, h_connected = True, h_definitions = []\<rparr>"

definition keyAB :: handlerKey where
  "keyAB = \<lparr>server = ''irc.scratch-network.net'', nick = ''bot''\<rparr>"

definition keyOther :: handlerKey where
  "keyOther = \<lparr>server = ''irc.digitalcore.club'', nick = ''bot''\<rparr>"

definition svc :: "IrcNetwork \<Rightarrow> (Handler, nat) service" where
  "svc n =
     \<lparr>repo = 0, indexerMap = Map.empty, handlers = [keyAB \<mapsto> liveHandler n], stopWG = 0\<rparr>"

definition svc2 :: "(Handler, nat) service" where
  "svc2 =
     \<lparr>repo = 0, indexerMap = Map.empty,
      handlers = [keyAB \<mapsto> liveHandler netAB, keyOther \<mapsto> liveHandler netAB],
      stopWG = 0\<rparr>"


section \<open>A concrete login service\<close>

text \<open>
  The body \<open>''good''\<close> stands for a JSON body that decodes to the operator's
  credentials, \<open>''wrong''\<close> for one that decodes to a wrong password; anything else
  does not decode.
\<close>

definition testAuth :: authEnv where
  "testAuth =
     \<lparr>Decode = (\<lambda>b. if b = ''good'' then Inr \<lparr>Username = ''admin'', UserPassword = ''secret''\<rparr>
                    else if b = ''wrong'' then Inr \<lparr>Username = ''admin'', UserPassword = ''guess''\<rparr>
                    else Inl (Error ''unexpected end of JSON input'')),
      Login = (\<lambda>u p. if u = ''admin'' \<and> p = ''secret''
                      then Inr \<lparr>Username = u, UserPassword = p\<rparr>
                      else Inl (Error ''invalid credentials'')),
      BaseURL = ''/''\<rparr>"

definition post :: "string \<Rightarrow> Request" where
  "post b = \<lparr>Body = b, Header = Map.empty, Cookies = Map.empty\<rparr>"

definition defaultOptions :: Options where
  "defaultOptions = \<lparr>Path = ''/'', HttpOnly = False, Secure = False, SameSite = SameSiteDefaultMode\<rparr>"

section \<open>Properties of the supervisor\<close>

subsection \<open>Calls on a handler of the map\<close>

lemma invoke_present:
  "handlers s k = Some h \<Longrightarrow>
   invoke E k c (evs, s) = (evs @ [Call k c], s\<lparr>handlers := (handlers s)(k \<mapsto> perform E c h)\<rparr>)"
  by (simp add: invoke_def)

lemma invoke_absent: "handlers s k = None \<Longrightarrow> invoke E k c (evs, s) = (evs, s)"
  by (simp add: invoke_def)

lemma fold_invoke_present:
  "handlers s k = Some h \<Longrightarrow>
   fold (\<lambda>c. invoke E k c) cs (evs, s) =
     (evs @ map (Call k) cs, s\<lparr>handlers := (handlers s)(k \<mapsto> fold (perform E) cs h)\<rparr>)"
proof (induction cs arbitrary: evs s h)
  case Nil
  then have "(handlers s)(k \<mapsto> h) = handlers s"
    by (simp add: map_upd_triv)
  then show ?case by simp
next
  case (Cons c cs)
  define s1 where "s1 = s\<lparr>handlers := (handlers s)(k \<mapsto> perform E c h)\<rparr>"
  have present: "handlers s1 k = Some (perform E c h)"
    by (simp add: s1_def)
  have step: "invoke E k c (evs, s) = (evs @ [Call k c], s1)"
    using Cons.prems by (simp add: invoke_present s1_def)
  have same: "s1\<lparr>handlers := (handlers s1)(k \<mapsto> x)\<rparr> = s\<lparr>handlers := (handlers s)(k \<mapsto> x)\<rparr>" for x
    by (simp add: s1_def)
  have "fold (\<lambda>c. invoke E k c) (c # cs) (evs, s) = fold (\<lambda>c. invoke E k c) cs (evs @ [Call k c], s1)"
    by (simp add: step)
  also have "\<dots> = ((evs @ [Call k c]) @ map (Call k) cs,
                    s1\<lparr>handlers := (handlers s1)(k \<mapsto> fold (perform E) cs (perform E c h))\<rparr>)"
    by (rule Cons.IH[OF present])
  also have "\<dots> = (evs @ map (Call k) (c # cs),
                    s\<lparr>handlers := (handlers s)(k \<mapsto> fold (perform E) (c # cs) h)\<rparr>)"
    unfolding same by simp
  finally show ?case .
qed


subsection \<open>The channel loops\<close>

lemma fold_insert_names:
  "fold (\<lambda>channel m. insert (ChName channel) m) cs A = A \<union> ChName ` set cs"
  by (induction cs arbitrary: A) auto

lemma expectedChannels_names: "expectedChannels network = names network"
  by (simp add: expectedChannels_def names_def fold_insert_names)

lemma leaveLoop_filter:
  "leaveLoop ex cs (hc, out) =
     (hc \<union> ChName ` set cs, out @ filter (\<lambda>n. n \<notin> ex) (map ChName cs))"
  by (induction cs arbitrary: hc out) auto

lemma joinLoop_filter:
  "joinLoop hc cs acc = acc @ filter (\<lambda>c. ChName c \<notin> hc) cs"
  by (induction cs arbitrary: acc) auto

lemma channelsToLeave_filter:
  "channelsToLeave handler network =
     filter (\<lambda>n. n \<notin> names network) (map ChName (elems (Channels handler)))"
  by (simp add: channelsToLeave_def leaveLoop_filter expectedChannels_names)

lemma channelsToJoin_filter:
  "channelsToJoin handler network =
     filter (\<lambda>c. ChName c \<notin> names handler) (elems (Channels network))"
  by (simp add: channelsToJoin_def leaveLoop_filter joinLoop_filter names_def)

lemma set_channelsToLeave:
  "set (channelsToLeave handler network) = names handler - names network"
  by (auto simp: channelsToLeave_filter names_def)

lemma set_channelsToJoin:
  "ChName ` set (channelsToJoin handler network) = names network - names handler"
  by (auto simp: channelsToJoin_filter names_def)

lemma same_channels_nothing_to_do:
  "Channels handler = Channels network \<Longrightarrow>
   channelsToLeave handler network = [] \<and> channelsToJoin handler network = []"
  by (auto simp: channelsToLeave_filter channelsToJoin_filter names_def filter_empty_conv)

lemma reconcile_live:
  assumes found: "handlers s (keyOf network) = Some h"
    and conn: "Connected E h"
    and norestart: "\<not> restartNeeded (GetNetwork E h) network"
    and ident: "ident =
      (if Account (NickServ (GetNetwork E h)) \<noteq> Account (NickServ network)
       then [H_HandleNickChange (Account (NickServ network))]
       else if Password (NickServ (GetNetwork E h)) \<noteq> Password (NickServ network)
       then [H_HandleNickServIdentify (Account (NickServ network)) (Password (NickServ network))]
       else [])"
    and cs: "cs = ident
      @ map H_HandlePartChannel (channelsToLeave (GetNetwork E h) network)
      @ map (\<lambda>c. H_HandleJoinChannel (ChName c) (ChPassword c))
          (channelsToJoin (GetNetwork E h) network)
      @ [H_SetNetwork network, H_InitIndexers (GetIndexersByIRCNetwork E (Server network))]"
  shows "checkIfNetworkRestartNeeded E network s =
     (None, map (Call (keyOf network)) cs,
      s\<lparr>handlers := (handlers s)(keyOf network \<mapsto> fold (perform E) cs h)\<rparr>)"
proof -
  let ?k = "keyOf network"
  let ?inv = "\<lambda>c. invoke E ?k c"
  have st1:
    "(if Account (NickServ (GetNetwork E h)) \<noteq> Account (NickServ network)
      then invoke E ?k (H_HandleNickChange (Account (NickServ network))) ([], s)
      else if Password (NickServ (GetNetwork E h)) \<noteq> Password (NickServ network)
      then invoke E ?k (H_HandleNickServIdentify (Account (NickServ network))
                          (Password (NickServ network))) ([], s)
      else ([], s)) = fold ?inv ident ([], s)"
    by (simp add: ident)
  have st2: "fold (\<lambda>leaveChannel. invoke E ?k (H_HandlePartChannel leaveChannel)) ls st
             = fold ?inv (map H_HandlePartChannel ls) st" for ls st
    by (simp add: fold_map comp_def)
  have st3: "fold (\<lambda>joinChannel. invoke E ?k
                     (H_HandleJoinChannel (ChName joinChannel) (ChPassword joinChannel))) js st
             = fold ?inv (map (\<lambda>c. H_HandleJoinChannel (ChName c) (ChPassword c)) js) st"
    for js :: "IrcChannel list" and st
    by (simp add: fold_map comp_def)
  have st45: "invoke E ?k c2 (invoke E ?k c1 st) = fold ?inv [c1, c2] st" for c1 c2 st
    by simp
  have "checkIfNetworkRestartNeeded E network s =
          (None, fst (fold ?inv cs ([], s)), snd (fold ?inv cs ([], s)))"
    by (simp only: checkIfNetworkRestartNeeded_def Let_def found option.case conn norestart
          if_True if_False st1 st2 st3 st45 cs fold_append comp_apply)
  then show ?thesis
    by (simp add: fold_invoke_present[OF found])
qed


lemma restartNeeded_iff:
  "restartNeeded handler network \<longleftrightarrow>
     Server handler \<noteq> Server network \<or> Port handler \<noteq> Port network \<or>
     TLS handler \<noteq> TLS network \<or> InviteCommand handler \<noteq> InviteCommand network"
  by (simp add: restartNeeded_def)

lemma fixture_simps:
  "keyOf netAB = keyAB" "keyOf netBC = keyAB" "keyOf netPort = keyAB" "keyOf netPass = keyAB"
  "keyOf netIdent = keyAB" "keyOf netOff = keyAB" "keyOf netLowerA = keyAB"
  "handlers (svc n) keyAB = Some (liveHandler n)"
  "Connected (testEnv a b) (liveHandler n)"
  "GetNetwork (testEnv a b) (liveHandler n) = n"
  "GetIndexersByIRCNetwork (testEnv a b) srv = []"
  by (simp_all add: keyOf_def keyAB_def netAB_def netBC_def netPort_def netPass_def netIdent_def
      netOff_def netLowerA_def svc_def liveHandler_def testEnv_def)

subsection \<open>Reconciliation of a live handler\<close>

text \<open>
  C1, amended. For a connected handler found under the network's key, with server, port,
  TLS, invite command and NickServ account and password unchanged, reconciliation returns
  \<^verbatim>\<open>nil\<close> and
  calls, in this order: \<^verbatim>\<open>HandlePartChannel\<close> for the channels to leave,
  \<^verbatim>\<open>HandleJoinChannel\<close> with name and password for the channels to join,
  \<^verbatim>\<open>SetNetwork\<close> and \<^verbatim>\<open>InitIndexers\<close>; no nick change and no restart. The channels to
  leave are the names of the handler's network snapshot that are not names of the updated
  network, the channels to join are those of the updated network whose name is not in
  the snapshot, names being compared exactly as written.
\<close>

theorem channel_delta_by_exact_name:
  assumes "handlers s (keyOf network) = Some h"
    and "Connected E h"
    and "Server (GetNetwork E h) = Server network"
    and "Port (GetNetwork E h) = Port network"
    and "TLS (GetNetwork E h) = TLS network"
    and "InviteCommand (GetNetwork E h) = InviteCommand network"
    and "NickServ (GetNetwork E h) = NickServ network"
  shows "fst (checkIfNetworkRestartNeeded E network s) = None \<and>
    fst (snd (checkIfNetworkRestartNeeded E network s)) =
      map (\<lambda>n. Call (keyOf network) (H_HandlePartChannel n))
        (channelsToLeave (GetNetwork E h) network)
      @ map (\<lambda>c. Call (keyOf network) (H_HandleJoinChannel (ChName c) (ChPassword c)))
          (channelsToJoin (GetNetwork E h) network)
      @ [Call (keyOf network) (H_SetNetwork network),
         Call (keyOf network) (H_InitIndexers (GetIndexersByIRCNetwork E (Server network)))] \<and>
    set (channelsToLeave (GetNetwork E h) network) = names (GetNetwork E h) - names network \<and>
    set (channelsToJoin (GetNetwork E h) network) =
      {c. c \<in> set (elems (Channels network)) \<and> ChName c \<notin> names (GetNetwork E h)}"
proof -
  have nr: "\<not> restartNeeded (GetNetwork E h) network"
    using assms(3-6) by (simp add: restartNeeded_iff)
  have "checkIfNetworkRestartNeeded E network s =
     (None,
      map (Call (keyOf network))
        ([] @ map H_HandlePartChannel (channelsToLeave (GetNetwork E h) network)
         @ map (\<lambda>c. H_HandleJoinChannel (ChName c) (ChPassword c))
             (channelsToJoin (GetNetwork E h) network)
         @ [H_SetNetwork network, H_InitIndexers (GetIndexersByIRCNetwork E (Server network))]),
      s\<lparr>handlers := (handlers s)(keyOf network \<mapsto>
           fold (perform E)
             ([] @ map H_HandlePartChannel (channelsToLeave (GetNetwork E h) network)
              @ map (\<lambda>c. H_HandleJoinChannel (ChName c) (ChPassword c))
                  (channelsToJoin (GetNetwork E h) network)
              @ [H_SetNetwork network,
                 H_InitIndexers (GetIndexersByIRCNetwork E (Server network))]) h)\<rparr>)"
    by (rule reconcile_live[OF assms(1,2) nr _ refl]) (simp add: assms(7))
  then have "fst (checkIfNetworkRestartNeeded E network s) = None"
    and "fst (snd (checkIfNetworkRestartNeeded E network s)) =
      map (\<lambda>n. Call (keyOf network) (H_HandlePartChannel n))
        (channelsToLeave (GetNetwork E h) network)
      @ map (\<lambda>c. Call (keyOf network) (H_HandleJoinChannel (ChName c) (ChPassword c)))
          (channelsToJoin (GetNetwork E h) network)
      @ [Call (keyOf network) (H_SetNetwork network),
         Call (keyOf network) (H_InitIndexers (GetIndexersByIRCNetwork E (Server network)))]"
    by (simp_all add: comp_def)
  moreover have "set (channelsToJoin (GetNetwork E h) network) =
      {c. c \<in> set (elems (Channels network)) \<and> ChName c \<notin> names (GetNetwork E h)}"
    by (auto simp: channelsToJoin_filter)
  ultimately show ?thesis
    by (simp add: set_channelsToLeave)
qed

theorem channel_delta_by_exact_name_witness:
  "handlers (svc netAB) (keyOf netBC) = Some (liveHandler netAB) \<and>
   Connected (testEnv False False) (liveHandler netAB) \<and>
   Server (GetNetwork (testEnv False False) (liveHandler netAB)) = Server netBC \<and>
   Port (GetNetwork (testEnv False False) (liveHandler netAB)) = Port netBC \<and>
   TLS (GetNetwork (testEnv False False) (liveHandler netAB)) = TLS netBC \<and>
   InviteCommand (GetNetwork (testEnv False False) (liveHandler netAB)) = InviteCommand netBC \<and>
   NickServ (GetNetwork (testEnv False False) (liveHandler netAB)) = NickServ netBC \<and>
   fst (snd (checkIfNetworkRestartNeeded (testEnv False False) netBC (svc netAB))) =
     [Call keyAB (H_HandlePartChannel ''#a''), Call keyAB (H_HandleJoinChannel ''#c'' []),
      Call keyAB (H_SetNetwork netBC), Call keyAB (H_InitIndexers [])]"
proof -
  have ev: "channelsToLeave netAB netBC = [''#a''] \<and> channelsToJoin netAB netBC = [chan ''#c'']"
    by (simp add: channelsToLeave_filter channelsToJoin_filter names_def netAB_def netBC_def
        elems_def chan_def)
  have hyps: "Server netAB = Server netBC \<and> Port netAB = Port netBC \<and> TLS netAB = TLS netBC \<and>
      InviteCommand netAB = InviteCommand netBC \<and> NickServ netAB = NickServ netBC"
    by (simp add: netBC_def)
  show ?thesis
    using channel_delta_by_exact_name[of "svc netAB" netBC "liveHandler netAB" "testEnv False False"]
    by (simp add: fixture_simps ev hyps chan_def)
qed

text \<open>
  C1 as stated fails on names that differ in case only: the handler's snapshot has
  \<^verbatim>\<open>#A\<close>, the updated network \<^verbatim>\<open>#a\<close>. Compared lowercased there is nothing to leave
  and nothing to join; the code parts \<^verbatim>\<open>#A\<close> and joins \<^verbatim>\<open>#a\<close>.
\<close>

theorem channel_delta_lowercased_counterexample:
  "spec_channelsToLeave netUpperA netLowerA = [] \<and>
   spec_channelsToJoin netUpperA netLowerA = [] \<and>
   fst (snd (checkIfNetworkRestartNeeded (testEnv False False) netLowerA (svc netUpperA))) =
     [Call keyAB (H_HandlePartChannel ''#A''), Call keyAB (H_HandleJoinChannel ''#a'' []),
      Call keyAB (H_SetNetwork netLowerA), Call keyAB (H_InitIndexers [])]"
proof -
  have spec: "spec_channelsToLeave netUpperA netLowerA = [] \<and>
      spec_channelsToJoin netUpperA netLowerA = []"
    by (simp add: spec_channelsToLeave_def spec_channelsToJoin_def names_def netUpperA_def
        netLowerA_def elems_def chan_def ToLower_def toLowerChar_def)
  have ev: "channelsToLeave netUpperA netLowerA = [''#A''] \<and>
      channelsToJoin netUpperA netLowerA = [chan ''#a'']"
    by (simp add: channelsToLeave_filter channelsToJoin_filter names_def netUpperA_def
        netLowerA_def elems_def chan_def)
  have nr: "\<not> restartNeeded netUpperA netLowerA"
    by (simp add: restartNeeded_def netUpperA_def netLowerA_def)
  have same: "NickServ netUpperA = NickServ netLowerA"
    by (simp add: netUpperA_def netLowerA_def)
  have "checkIfNetworkRestartNeeded (testEnv False False) netLowerA (svc netUpperA) =
     (None, map (Call (keyOf netLowerA))
        ([] @ map H_HandlePartChannel [''#A'']
         @ map (\<lambda>c. H_HandleJoinChannel (ChName c) (ChPassword c)) [chan ''#a'']
         @ [H_SetNetwork netLowerA, H_InitIndexers []]),
      (svc netUpperA)\<lparr>handlers := (handlers (svc netUpperA))(keyOf netLowerA \<mapsto>
         fold (perform (testEnv False False))
           ([] @ map H_HandlePartChannel [''#A'']
            @ map (\<lambda>c. H_HandleJoinChannel (ChName c) (ChPassword c)) [chan ''#a'']
            @ [H_SetNetwork netLowerA, H_InitIndexers []]) (liveHandler netUpperA))\<rparr>)"
    by (rule reconcile_live[where h = "liveHandler netUpperA"])
       (simp_all add: fixture_simps nr ev same)
  then show ?thesis
    by (simp add: spec fixture_simps chan_def)
qed


text \<open>
  C2, amended. For a connected handler found under the network's key, a difference in
  server, port, TLS or invite command between the handler's network snapshot and the
  updated network makes reconciliation hand the updated network to the handler
  (\<^verbatim>\<open>UpdateNetwork\<close>), start \<^verbatim>\<open>Restart\<close> in a task of its own and return \<^verbatim>\<open>nil\<close>:
  no nick change, no identify, no join, no part. The server password is not among the
  fields compared.
\<close>

theorem transport_change_restarts:
  assumes "handlers s (keyOf network) = Some h"
    and "Connected E h"
    and "Server (GetNetwork E h) \<noteq> Server network \<or> Port (GetNetwork E h) \<noteq> Port network \<or>
         TLS (GetNetwork E h) \<noteq> TLS network \<or>
         InviteCommand (GetNetwork E h) \<noteq> InviteCommand network"
  shows "checkIfNetworkRestartNeeded E network s =
    (None,
     [Call (keyOf network) (H_UpdateNetwork network), Go (keyOf network) H_Restart],
     s\<lparr>handlers := (handlers s)(keyOf network \<mapsto> perform E (H_UpdateNetwork network) h)\<rparr>)"
proof -
  have "restartNeeded (GetNetwork E h) network"
    using assms(3) by (simp add: restartNeeded_iff)
  then show ?thesis
    using assms(1,2) by (simp add: checkIfNetworkRestartNeeded_def invoke_present)
qed

theorem transport_change_restarts_witness:
  "handlers (svc netAB) (keyOf netPort) = Some (liveHandler netAB) \<and>
   Connected (testEnv False False) (liveHandler netAB) \<and>
   Port (GetNetwork (testEnv False False) (liveHandler netAB)) \<noteq> Port netPort \<and>
   fst (snd (checkIfNetworkRestartNeeded (testEnv False False) netPort (svc netAB))) =
     [Call keyAB (H_UpdateNetwork netPort), Go keyAB H_Restart] \<and>
   map_option h_network
     (handlers (snd (snd (checkIfNetworkRestartNeeded (testEnv False False) netPort (svc netAB))))
        keyAB) = Some netPort"
proof -
  have port: "Port netAB \<noteq> Port netPort"
    by (simp add: netPort_def netAB_def)
  have upd: "perform (testEnv False False) (H_UpdateNetwork netPort) (liveHandler netAB)
      = liveHandler netPort"
    by (simp add: testEnv_def liveHandler_def)
  have net: "h_network (liveHandler netPort) = netPort"
    by (simp add: liveHandler_def)
  show ?thesis
    using transport_change_restarts[of "svc netAB" netPort "liveHandler netAB" "testEnv False False"]
    by (simp add: fixture_simps port upd net)
qed

text \<open>
  C2 as stated fails for the server password: with only \<^verbatim>\<open>Pass\<close> changed the handler
  is neither updated nor restarted; the reconcile goes on to \<^verbatim>\<open>SetNetwork\<close> and
  \<^verbatim>\<open>InitIndexers\<close> on the running session.
\<close>

theorem server_password_change_counterexample:
  "Pass (GetNetwork (testEnv False False) (liveHandler netAB)) \<noteq> Pass netPass \<and>
   checkIfNetworkRestartNeeded (testEnv False False) netPass (svc netAB) =
     (None,
      [Call keyAB (H_SetNetwork netPass), Call keyAB (H_InitIndexers [])],
      (svc netAB)\<lparr>handlers := [keyAB \<mapsto> liveHandler netPass]\<rparr>)"
proof -
  have pass: "Pass netAB \<noteq> Pass netPass"
    by (simp add: netPass_def netAB_def)
  have nr: "\<not> restartNeeded netAB netPass"
    by (simp add: restartNeeded_def netPass_def)
  have same: "NickServ netAB = NickServ netPass" "Channels netAB = Channels netPass"
    by (simp_all add: netPass_def)
  have idle: "channelsToLeave netAB netPass = []" "channelsToJoin netAB netPass = []"
    using same_channels_nothing_to_do[OF same(2)] by simp_all
  have "checkIfNetworkRestartNeeded (testEnv False False) netPass (svc netAB) =
     (None, map (Call (keyOf netPass)) [H_SetNetwork netPass, H_InitIndexers []],
      (svc netAB)\<lparr>handlers := (handlers (svc netAB))(keyOf netPass \<mapsto>
         fold (perform (testEnv False False)) [H_SetNetwork netPass, H_InitIndexers []]
           (liveHandler netAB))\<rparr>)"
  proof (rule reconcile_live[where h = "liveHandler netAB" and ident = "[]"])
    show "handlers (svc netAB) (keyOf netPass) = Some (liveHandler netAB)"
      by (simp add: fixture_simps)
    show "Connected (testEnv False False) (liveHandler netAB)"
      by (simp add: fixture_simps)
    show "\<not> restartNeeded (GetNetwork (testEnv False False) (liveHandler netAB)) netPass"
      by (simp add: fixture_simps nr)
    show "[] = (if Account (NickServ (GetNetwork (testEnv False False) (liveHandler netAB)))
                   \<noteq> Account (NickServ netPass)
                then [H_HandleNickChange (Account (NickServ netPass))]
                else if Password (NickServ (GetNetwork (testEnv False False) (liveHandler netAB)))
                   \<noteq> Password (NickServ netPass)
                then [H_HandleNickServIdentify (Account (NickServ netPass))
                        (Password (NickServ netPass))]
                else [])"
      by (simp add: fixture_simps same)
    show "[H_SetNetwork netPass, H_InitIndexers []] =
        [] @ map H_HandlePartChannel
               (channelsToLeave (GetNetwork (testEnv False False) (liveHandler netAB)) netPass)
        @ map (\<lambda>c. H_HandleJoinChannel (ChName c) (ChPassword c))
            (channelsToJoin (GetNetwork (testEnv False False) (liveHandler netAB)) netPass)
        @ [H_SetNetwork netPass,
           H_InitIndexers (GetIndexersByIRCNetwork (testEnv False False) (Server netPass))]"
      by (simp add: fixture_simps idle)
  qed
  moreover have "fold (perform (testEnv False False)) [H_SetNetwork netPass, H_InitIndexers []]
      (liveHandler netAB) = liveHandler netPass"
    by (simp add: testEnv_def liveHandler_def)
  moreover have "(handlers (svc netAB))(keyAB \<mapsto> liveHandler netPass) = [keyAB \<mapsto> liveHandler netPass]"
    by (simp add: svc_def)
  ultimately show ?thesis
    by (simp add: fixture_simps pass)
qed

text \<open>
  C3. For a connected handler found under the network's key, with server, port, TLS,
  invite command and NickServ account unchanged and a different NickServ password,
  reconciliation first calls \<^verbatim>\<open>HandleNickServIdentify\<close> with the updated account and
  password on the running handler, then parts and joins what the channel lists require,
  then \<^verbatim>\<open>SetNetwork\<close> and \<^verbatim>\<open>InitIndexers\<close>. It starts no task, calls neither \<^verbatim>\<open>Stop\<close>
  nor \<^verbatim>\<open>Restart\<close>, keeps the handler in the map and returns \<^verbatim>\<open>nil\<close>. When the
  channel lists are equal too, these three calls are all it does.
\<close>

theorem password_change_reidentifies:
  assumes "handlers s (keyOf network) = Some h"
    and "Connected E h"
    and "Server (GetNetwork E h) = Server network"
    and "Port (GetNetwork E h) = Port network"
    and "TLS (GetNetwork E h) = TLS network"
    and "InviteCommand (GetNetwork E h) = InviteCommand network"
    and "Account (NickServ (GetNetwork E h)) = Account (NickServ network)"
    and "Password (NickServ (GetNetwork E h)) \<noteq> Password (NickServ network)"
  shows "fst (checkIfNetworkRestartNeeded E network s) = None \<and>
    fst (snd (checkIfNetworkRestartNeeded E network s)) =
      Call (keyOf network)
        (H_HandleNickServIdentify (Account (NickServ network)) (Password (NickServ network)))
      # map (\<lambda>n. Call (keyOf network) (H_HandlePartChannel n))
          (channelsToLeave (GetNetwork E h) network)
      @ map (\<lambda>c. Call (keyOf network) (H_HandleJoinChannel (ChName c) (ChPassword c)))
          (channelsToJoin (GetNetwork E h) network)
      @ [Call (keyOf network) (H_SetNetwork network),
         Call (keyOf network) (H_InitIndexers (GetIndexersByIRCNetwork E (Server network)))] \<and>
    handlers (snd (snd (checkIfNetworkRestartNeeded E network s))) (keyOf network) \<noteq> None \<and>
    (Channels (GetNetwork E h) = Channels network \<longrightarrow>
       fst (snd (checkIfNetworkRestartNeeded E network s)) =
         [Call (keyOf network)
            (H_HandleNickServIdentify (Account (NickServ network)) (Password (NickServ network))),
          Call (keyOf network) (H_SetNetwork network),
          Call (keyOf network) (H_InitIndexers (GetIndexersByIRCNetwork E (Server network)))])"
proof -
  have nr: "\<not> restartNeeded (GetNetwork E h) network"
    using assms(3-6) by (simp add: restartNeeded_iff)
  define cs where "cs =
     [H_HandleNickServIdentify (Account (NickServ network)) (Password (NickServ network))]
     @ map H_HandlePartChannel (channelsToLeave (GetNetwork E h) network)
     @ map (\<lambda>c. H_HandleJoinChannel (ChName c) (ChPassword c))
         (channelsToJoin (GetNetwork E h) network)
     @ [H_SetNetwork network, H_InitIndexers (GetIndexersByIRCNetwork E (Server network))]"
  have run: "checkIfNetworkRestartNeeded E network s =
     (None, map (Call (keyOf network)) cs,
      s\<lparr>handlers := (handlers s)(keyOf network \<mapsto> fold (perform E) cs h)\<rparr>)"
    by (rule reconcile_live[OF assms(1,2) nr _ cs_def]) (simp add: assms(7,8))
  have evs: "fst (snd (checkIfNetworkRestartNeeded E network s)) =
      Call (keyOf network)
        (H_HandleNickServIdentify (Account (NickServ network)) (Password (NickServ network)))
      # map (\<lambda>n. Call (keyOf network) (H_HandlePartChannel n))
          (channelsToLeave (GetNetwork E h) network)
      @ map (\<lambda>c. Call (keyOf network) (H_HandleJoinChannel (ChName c) (ChPassword c)))
          (channelsToJoin (GetNetwork E h) network)
      @ [Call (keyOf network) (H_SetNetwork network),
         Call (keyOf network) (H_InitIndexers (GetIndexersByIRCNetwork E (Server network)))]"
    by (simp add: run cs_def comp_def)
  have kept: "handlers (snd (snd (checkIfNetworkRestartNeeded E network s))) (keyOf network) \<noteq> None"
    by (simp add: run)
  have "fst (checkIfNetworkRestartNeeded E network s) = None"
    by (simp add: run)
  then show ?thesis
    using evs kept by (auto dest: same_channels_nothing_to_do)
qed

theorem password_change_reidentifies_witness:
  "handlers (svc netAB) (keyOf netIdent) = Some (liveHandler netAB) \<and>
   Connected (testEnv False False) (liveHandler netAB) \<and>
   Server (GetNetwork (testEnv False False) (liveHandler netAB)) = Server netIdent \<and>
   Port (GetNetwork (testEnv False False) (liveHandler netAB)) = Port netIdent \<and>
   TLS (GetNetwork (testEnv False False) (liveHandler netAB)) = TLS netIdent \<and>
   InviteCommand (GetNetwork (testEnv False False) (liveHandler netAB)) = InviteCommand netIdent \<and>
   Account (NickServ (GetNetwork (testEnv False False) (liveHandler netAB)))
     = Account (NickServ netIdent) \<and>
   Password (NickServ (GetNetwork (testEnv False False) (liveHandler netAB)))
     \<noteq> Password (NickServ netIdent) \<and>
   Channels (GetNetwork (testEnv False False) (liveHandler netAB)) = Channels netIdent \<and>
   fst (snd (checkIfNetworkRestartNeeded (testEnv False False) netIdent (svc netAB))) =
     [Call keyAB (H_HandleNickServIdentify ''bot'' ''new''),
      Call keyAB (H_SetNetwork netIdent), Call keyAB (H_InitIndexers [])]"
proof -
  have hyps: "Server netAB = Server netIdent" "Port netAB = Port netIdent"
    "TLS netAB = TLS netIdent" "InviteCommand netAB = InviteCommand netIdent"
    "Account (NickServ netAB) = Account (NickServ netIdent)"
    "Password (NickServ netAB) \<noteq> Password (NickServ netIdent)"
    "Channels netAB = Channels netIdent"
    by (simp_all add: netIdent_def netAB_def)
  have vals: "Account (NickServ netIdent) = ''bot''" "Password (NickServ netIdent) = ''new''"
    by (simp_all add: netIdent_def)
  show ?thesis
    using password_change_reidentifies[of "svc netAB" netIdent "liveHandler netAB"
        "testEnv False False"] hyps
    by (simp add: fixture_simps vals same_channels_nothing_to_do)
qed



subsection \<open>Updating a network\<close>

text \<open>
  C4. When \<^verbatim>\<open>StoreNetworkChannels\<close> (called for a non-nil channel slice) returns an
  error, \<^verbatim>\<open>UpdateNetwork\<close> returns that error, having called no handler, started no
  task and left the handlers map as it was. The same holds when the channels were
  stored, or there were none to store, and the repository's \<^verbatim>\<open>UpdateNetwork\<close> returns
  an error.
\<close>

theorem persistence_failure_aborts:
  "(Channels network \<noteq> None \<and>
    StoreNetworkChannels E (ID network) (Channels network) (repo s) = (Some err, r1)
    \<longrightarrow> UpdateNetwork E network s = (Some err, [], s\<lparr>repo := r1\<rparr>) \<and>
        handlers (snd (snd (UpdateNetwork E network s))) = handlers s) \<and>
   ((Channels network = None \<and> r1 = repo s \<or>
     Channels network \<noteq> None \<and>
     StoreNetworkChannels E (ID network) (Channels network) (repo s) = (None, r1)) \<and>
    repo_UpdateNetwork E network r1 = (Some err, r2)
    \<longrightarrow> UpdateNetwork E network s = (Some err, [], s\<lparr>repo := r2\<rparr>) \<and>
        handlers (snd (snd (UpdateNetwork E network s))) = handlers s)"
  by (auto simp: UpdateNetwork_def)

theorem persistence_failure_aborts_witness:
  "Channels netBC \<noteq> None \<and>
   StoreNetworkChannels (testEnv True False) (ID netBC) (Channels netBC) (repo (svc netAB))
     = (Some (Error ''store channels''), 1) \<and>
   UpdateNetwork (testEnv True False) netBC (svc netAB)
     = (Some (Error ''store channels''), [], (svc netAB)\<lparr>repo := 1\<rparr>) \<and>
   StoreNetworkChannels (testEnv False True) (ID netBC) (Channels netBC) (repo (svc netAB))
     = (None, 1) \<and>
   repo_UpdateNetwork (testEnv False True) netBC 1 = (Some (Error ''update network''), 2) \<and>
   UpdateNetwork (testEnv False True) netBC (svc netAB)
     = (Some (Error ''update network''), [], (svc netAB)\<lparr>repo := 2\<rparr>)"
proof -
  have some: "Channels netBC \<noteq> None"
    by (simp add: netBC_def)
  have store_fails:
    "StoreNetworkChannels (testEnv True False) (ID netBC) (Channels netBC) (repo (svc netAB))
       = (Some (Error ''store channels''), 1)"
    by (simp add: testEnv_def svc_def)
  have store_ok:
    "StoreNetworkChannels (testEnv False True) (ID netBC) (Channels netBC) (repo (svc netAB))
       = (None, 1)"
    by (simp add: testEnv_def svc_def)
  have update_fails:
    "repo_UpdateNetwork (testEnv False True) netBC 1 = (Some (Error ''update network''), 2)"
    by (simp add: testEnv_def)
  show ?thesis
    using persistence_failure_aborts[of netBC "testEnv True False" "svc netAB"
        "Error ''store channels''" 1 2]
      persistence_failure_aborts[of netBC "testEnv False True" "svc netAB"
        "Error ''update network''" 1 2]
      some store_fails store_ok update_fails
    by simp
qed

text \<open>
  C5. When \<^verbatim>\<open>UpdateNetwork\<close> is called with a network that is not enabled and returns
  \<^verbatim>\<open>nil\<close>, the handlers map has no entry under (server, NickServ account) of the
  network. If there was a handler under that key, \<^verbatim>\<open>Stop\<close> was called on it, as the only
  call made, while the map still held it; if there was none, nothing was called. Every
  other entry of the map is as before.
\<close>

theorem disabled_network_has_no_handler:
  assumes "\<not> Enabled network"
    and "UpdateNetwork E network s = (None, evs, s')"
  shows "handlers s' \<lparr>server = Server network, nick = Account (NickServ network)\<rparr> = None \<and>
    evs = (case handlers s (keyOf network) of
             None \<Rightarrow> []
           | Some h \<Rightarrow> [Call (keyOf network) H_Stop]) \<and>
    handlers s' = (handlers s)(keyOf network := None)"
proof -
  obtain r2 where run: "StopAndRemoveNetwork E (keyOf network) (s\<lparr>repo := r2\<rparr>) = (None, evs, s')"
    using assms
    by (auto simp: UpdateNetwork_def split: if_splits prod.splits option.splits)
  show ?thesis
  proof (cases "handlers s (keyOf network)")
    case None
    then show ?thesis
      using run by (auto simp: StopAndRemoveNetwork_def keyOf_def)
  next
    case (Some h)
    then show ?thesis
      using run by (auto simp: StopAndRemoveNetwork_def invoke_def keyOf_def)
  qed
qed

theorem disabled_network_has_no_handler_witness:
  "\<not> Enabled netOff \<and>
   UpdateNetwork (testEnv False False) netOff svc2
     = (None, [Call keyAB H_Stop],
        svc2\<lparr>repo := 2, handlers := [keyOther \<mapsto> liveHandler netAB]\<rparr>) \<and>
   handlers (svc2\<lparr>repo := 2, handlers := [keyOther \<mapsto> liveHandler netAB]\<rparr>)
     \<lparr>server = Server netOff, nick = Account (NickServ netOff)\<rparr> = None"
proof -
  have off: "\<not> Enabled netOff"
    by (simp add: netOff_def)
  have differ: "keyAB \<noteq> keyOther"
    by (simp add: keyAB_def keyOther_def)
  have left: "(handlers svc2)(keyAB := None) = [keyOther \<mapsto> liveHandler netAB]"
    using differ by (auto simp: svc2_def fun_eq_iff)
  have at: "handlers svc2 keyAB = Some (liveHandler netAB)"
    using differ by (simp add: svc2_def)
  have persist: "StoreNetworkChannels (testEnv False False) i cs r = (None, Suc r)"
    "repo_UpdateNetwork (testEnv False False) n r = (None, Suc r)" for i cs r n
    by (simp_all add: testEnv_def)
  have start: "repo svc2 = 0"
    by (simp add: svc2_def)
  have chans: "Channels netOff \<noteq> None"
    by (simp add: netOff_def netAB_def)
  have run: "UpdateNetwork (testEnv False False) netOff svc2
     = (None, [Call keyAB H_Stop],
        svc2\<lparr>repo := 2, handlers := [keyOther \<mapsto> liveHandler netAB]\<rparr>)"
    by (simp add: UpdateNetwork_def off StopAndRemoveNetwork_def invoke_def fixture_simps
        persist start at left chans)
  have key: "\<lparr>server = Server netOff, nick = Account (NickServ netOff)\<rparr> = keyAB"
    by (simp add: keyAB_def netOff_def netAB_def)
  show ?thesis
    using disabled_network_has_no_handler[OF off run] off run
    by (simp add: key fixture_simps)
qed

subsection \<open>Stopping\<close>

lemma stop_fold:
  "distinct ks \<Longrightarrow> set ks \<subseteq> dom (handlers s) \<Longrightarrow>
   fold (\<lambda>k. invoke E k H_Stop) ks (evs, s) =
     (evs @ map (\<lambda>k. Call k H_Stop) ks,
      s\<lparr>handlers := (\<lambda>k. if k \<in> set ks then map_option (perform E H_Stop) (handlers s k)
                          else handlers s k)\<rparr>)"
proof (induction ks arbitrary: evs s)
  case Nil
  then show ?case by simp
next
  case (Cons k ks)
  from Cons.prems obtain h where h: "handlers s k = Some h"
    by auto
  define s1 where "s1 = s\<lparr>handlers := (handlers s)(k \<mapsto> perform E H_Stop h)\<rparr>"
  have step: "invoke E k H_Stop (evs, s) = (evs @ [Call k H_Stop], s1)"
    by (simp add: invoke_present[OF h] s1_def)
  have sub: "set ks \<subseteq> dom (handlers s1)"
    using Cons.prems by (auto simp: s1_def)
  have dist: "distinct ks" and fresh: "k \<notin> set ks"
    using Cons.prems by simp_all
  have maps: "(\<lambda>k'. if k' \<in> set ks then map_option (perform E H_Stop) (handlers s1 k')
                       else handlers s1 k')
            = (\<lambda>k'. if k' \<in> set (k # ks) then map_option (perform E H_Stop) (handlers s k')
                       else handlers s k')"
    using fresh h by (auto simp: s1_def fun_eq_iff)
  have "fold (\<lambda>k. invoke E k H_Stop) (k # ks) (evs, s)
      = fold (\<lambda>k. invoke E k H_Stop) ks (evs @ [Call k H_Stop], s1)"
    by (simp add: step)
  also have "\<dots> = ((evs @ [Call k H_Stop]) @ map (\<lambda>k. Call k H_Stop) ks,
      s1\<lparr>handlers := (\<lambda>k'. if k' \<in> set ks then map_option (perform E H_Stop) (handlers s1 k')
                            else handlers s1 k')\<rparr>)"
    by (rule Cons.IH[OF dist sub])
  also have "\<dots> = (evs @ map (\<lambda>k. Call k H_Stop) (k # ks),
      s\<lparr>handlers := (\<lambda>k'. if k' \<in> set (k # ks)
                            then map_option (perform E H_Stop) (handlers s k')
                            else handlers s k')\<rparr>)"
    unfolding maps by (simp add: s1_def)
  finally show ?case .
qed

text \<open>
  C8, amended. \<^verbatim>\<open>StopHandlers\<close> calls \<^verbatim>\<open>Stop\<close> on every handler of the map, once each,
  one call after the other in the order of the range (\<open>ks\<close>, any enumeration of the keys
  without repetition), each call run to its return in the calling task. Afterwards the
  map holds, under the same keys, the handlers as \<^verbatim>\<open>Stop\<close> left them; the repository,
  the indexer map and the wait group are untouched.
\<close>

theorem StopHandlers_stops_each_in_turn:
  assumes "distinct ks" and "set ks = dom (handlers s)"
  shows "fst (StopHandlers E ks s) = map (\<lambda>k. Call k H_Stop) ks \<and>
    handlers (snd (StopHandlers E ks s)) = (\<lambda>k. map_option (perform E H_Stop) (handlers s k)) \<and>
    repo (snd (StopHandlers E ks s)) = repo s \<and>
    indexerMap (snd (StopHandlers E ks s)) = indexerMap s \<and>
    stopWG (snd (StopHandlers E ks s)) = stopWG s"
proof -
  have sub: "set ks \<subseteq> dom (handlers s)"
    using assms(2) by simp
  have out: "(\<lambda>k. if k \<in> set ks then map_option (perform E H_Stop) (handlers s k) else handlers s k)
      = (\<lambda>k. map_option (perform E H_Stop) (handlers s k))"
    using assms(2) by (auto simp: fun_eq_iff domIff)
  show ?thesis
    unfolding StopHandlers_def stop_fold[OF assms(1) sub] out by simp
qed

theorem StopHandlers_stops_each_in_turn_witness:
  "distinct [keyAB, keyOther] \<and> set [keyAB, keyOther] = dom (handlers svc2) \<and>
   fst (StopHandlers (testEnv False False) [keyAB, keyOther] svc2)
     = [Call keyAB H_Stop, Call keyOther H_Stop] \<and>
   map_option h_connected (handlers (snd (StopHandlers (testEnv False False) [keyAB, keyOther] svc2)) keyAB)
     = Some False \<and>
   map_option h_connected (handlers (snd (StopHandlers (testEnv False False) [keyAB, keyOther] svc2)) keyOther)
     = Some False"
proof -
  have differ: "keyAB \<noteq> keyOther"
    by (simp add: keyAB_def keyOther_def)
  have d: "distinct [keyAB, keyOther]"
    using differ by simp
  have keys: "set [keyAB, keyOther] = dom (handlers svc2)"
    by (auto simp: svc2_def)
  have at: "handlers svc2 keyAB = Some (liveHandler netAB)"
    "handlers svc2 keyOther = Some (liveHandler netAB)"
    using differ by (simp_all add: svc2_def)
  have stop: "h_connected (perform (testEnv False False) H_Stop (liveHandler netAB)) = False"
    by (simp add: testEnv_def liveHandler_def)
  show ?thesis
    using StopHandlers_stops_each_in_turn[OF d keys, of "testEnv False False"] d keys
    by (simp add: at stop)
qed

text \<open>
  C8 as stated fails: with two handlers the whole effect of \<^verbatim>\<open>StopHandlers\<close> is the two
  calls of \<^verbatim>\<open>Stop\<close>, one after the other in the calling task. No task is started
  (there is no \<open>Go\<close> event), so the calls are not issued in parallel, and the wait
  group's counter is not read or changed: nothing waits for a \<^verbatim>\<open>Run\<close> to end.
\<close>

theorem StopHandlers_sequential_counterexample:
  "StopHandlers (testEnv False False) [keyAB, keyOther] svc2 =
     ([Call keyAB H_Stop, Call keyOther H_Stop],
      svc2\<lparr>handlers := [keyAB \<mapsto> (liveHandler netAB)\<lparr>h_connected := False\<rparr>,
                         keyOther \<mapsto> (liveHandler netAB)\<lparr>h_connected := False\<rparr>]\<rparr>)"
proof -
  have differ: "keyAB \<noteq> keyOther"
    by (simp add: keyAB_def keyOther_def)
  show ?thesis
    using differ
    by (simp add: StopHandlers_def invoke_def svc2_def testEnv_def liveHandler_def fun_eq_iff)
qed

text \<open>
  C9. \<^verbatim>\<open>StopAndRemoveNetwork\<close> returns \<^verbatim>\<open>nil\<close> and leaves no handler under the key;
  called again on the supervisor it left, it returns \<^verbatim>\<open>nil\<close> again, calls nothing and
  leaves the supervisor exactly as the first call did.
\<close>

theorem StopAndRemoveNetwork_idempotent:
  "fst (StopAndRemoveNetwork E k s) = None \<and>
   handlers (snd (snd (StopAndRemoveNetwork E k s))) k = None \<and>
   StopAndRemoveNetwork E k (snd (snd (StopAndRemoveNetwork E k s))) =
     (None, [], snd (snd (StopAndRemoveNetwork E k s)))"
  by (cases "handlers s k") (simp_all add: StopAndRemoveNetwork_def invoke_def)

text \<open>
  C10. \<^verbatim>\<open>StopNetwork\<close>, \<^verbatim>\<open>StopNetworkIfRunning\<close> and \<^verbatim>\<open>StopAndRemoveNetwork\<close> return
  \<^verbatim>\<open>nil\<close> for every key. With no handler under the key they call nothing and leave the
  supervisor as it was. In every case the supervisor afterwards is the supervisor before
  with at most the entry of the handlers map under that key changed: the repository, the
  indexer map, the wait group and every other entry are as they were.
\<close>

theorem stop_operations_never_fail:
  "fst (StopNetwork E k s) = None \<and>
   fst (StopNetworkIfRunning E k s) = None \<and>
   fst (StopAndRemoveNetwork E k s) = None \<and>
   snd (snd (StopNetwork E k s)) =
     s\<lparr>handlers := (handlers s)(k := handlers (snd (snd (StopNetwork E k s))) k)\<rparr> \<and>
   snd (snd (StopNetworkIfRunning E k s)) =
     s\<lparr>handlers := (handlers s)(k := handlers (snd (snd (StopNetworkIfRunning E k s))) k)\<rparr> \<and>
   snd (snd (StopAndRemoveNetwork E k s)) =
     s\<lparr>handlers := (handlers s)(k := handlers (snd (snd (StopAndRemoveNetwork E k s))) k)\<rparr> \<and>
   (handlers s k = None \<longrightarrow>
      StopNetwork E k s = (None, [], s) \<and>
      StopNetworkIfRunning E k s = (None, [], s) \<and>
      StopAndRemoveNetwork E k s = (None, [], s))"
proof (cases "handlers s k")
  case None
  then have "(handlers s)(k := None) = handlers s"
    by (simp add: fun_upd_idem)
  with None show ?thesis
    by (simp add: StopNetwork_def StopNetworkIfRunning_def StopAndRemoveNetwork_def)
next
  case (Some h)
  then show ?thesis
    by (simp add: StopNetwork_def StopNetworkIfRunning_def StopAndRemoveNetwork_def
        invoke_present)
qed

theorem stop_operations_never_fail_witness:
  "handlers (svc netAB) keyOther = None \<and>
   StopNetwork (testEnv False False) keyOther (svc netAB) = (None, [], svc netAB) \<and>
   StopNetworkIfRunning (testEnv False False) keyOther (svc netAB) = (None, [], svc netAB) \<and>
   StopAndRemoveNetwork (testEnv False False) keyOther (svc netAB) = (None, [], svc netAB)"
proof -
  have differ: "keyOther \<noteq> keyAB"
    by (simp add: keyAB_def keyOther_def)
  have absent: "handlers (svc netAB) keyOther = None"
    using differ by (simp add: svc_def)
  show ?thesis
    using stop_operations_never_fail[of "testEnv False False" keyOther "svc netAB"] absent
    by blast
qed

section \<open>Properties of the login handlers\<close>

lemma test_status:
  "Status (test opts r newResponseWriter) =
     Some (if (case Cookies r ''user_session'' of
                 None \<Rightarrow> False
               | Some vals \<Rightarrow> vals ''authenticated'' = Some (VBool True))
           then 204 else 403)"
  by (auto simp: test_def cookieStore_Get_def http_Error_def StatusResponse_def WriteHeader_def
      newResponseWriter_def StatusForbidden_def StatusNoContent_def Let_def
      split: option.splits ivalue.splits)

lemma withCookies_one:
  "Cookies (withCookies r [c]) (CookieName c) = Some (CookieValues c)"
  by (simp add: withCookies_def)

text \<open>
  C7. \<^verbatim>\<open>POST /login\<close>, answered on a fresh response: a body that does not decode
  gives 400 and no cookie; credentials the auth service rejects give 401 and no cookie;
  credentials it accepts give 204 and exactly one cookie, \<^verbatim>\<open>user_session\<close>, with HttpOnly
  set and \<^verbatim>\<open>authenticated\<close> true, and \<^verbatim>\<open>GET /test\<close> on a request that returns this
  cookie gives 204. \<^verbatim>\<open>GET /test\<close> gives 204 when the request's session has
  \<^verbatim>\<open>authenticated\<close> true, and 403 otherwise, in particular without a session cookie.
\<close>

theorem auth_flow:
  "(Decode A (Body r) = Inl e \<longrightarrow>
      Status (snd (login A opts r newResponseWriter)) = Some 400 \<and>
      SetCookies (snd (login A opts r newResponseWriter)) = []) \<and>
   (Decode A (Body r) = Inr u \<and> Login A (Username u) (UserPassword u) = Inl e \<longrightarrow>
      Status (snd (login A opts r newResponseWriter)) = Some 401 \<and>
      SetCookies (snd (login A opts r newResponseWriter)) = []) \<and>
   (Decode A (Body r) = Inr u \<and> Login A (Username u) (UserPassword u) = Inr v \<longrightarrow>
      Status (snd (login A opts r newResponseWriter)) = Some 204 \<and>
      map CookieName (SetCookies (snd (login A opts r newResponseWriter))) = [''user_session''] \<and>
      map (\<lambda>c. HttpOnly (CookieOptions c)) (SetCookies (snd (login A opts r newResponseWriter)))
        = [True] \<and>
      map (\<lambda>c. CookieValues c ''authenticated'')
          (SetCookies (snd (login A opts r newResponseWriter))) = [Some (VBool True)] \<and>
      Status (test (fst (login A opts r newResponseWriter))
                (withCookies r2 (SetCookies (snd (login A opts r newResponseWriter))))
                newResponseWriter) = Some 204) \<and>
   Status (test opts r newResponseWriter) =
     Some (if (case Cookies r ''user_session'' of
                 None \<Rightarrow> False
               | Some vals \<Rightarrow> vals ''authenticated'' = Some (VBool True))
           then 204 else 403)"
proof -
  have bad: "Status (snd (login A opts r newResponseWriter)) = Some 400 \<and>
      SetCookies (snd (login A opts r newResponseWriter)) = []"
    if "Decode A (Body r) = Inl e"
    using that
    by (simp add: login_def StatusResponse_def WriteHeader_def newResponseWriter_def
        StatusBadRequest_def)
  have rejected: "Status (snd (login A opts r newResponseWriter)) = Some 401 \<and>
      SetCookies (snd (login A opts r newResponseWriter)) = []"
    if "Decode A (Body r) = Inr u" "Login A (Username u) (UserPassword u) = Inl e"
    using that
    by (simp add: login_def Let_def StatusResponse_def WriteHeader_def newResponseWriter_def
        StatusUnauthorized_def)
  have accepted: "Status (snd (login A opts r newResponseWriter)) = Some 204 \<and>
      (\<exists>c. SetCookies (snd (login A opts r newResponseWriter)) = [c] \<and>
           CookieName c = ''user_session'' \<and> HttpOnly (CookieOptions c) \<and>
           CookieValues c ''authenticated'' = Some (VBool True))"
    if "Decode A (Body r) = Inr u" "Login A (Username u) (UserPassword u) = Inr v"
    using that
    by (simp add: login_def Let_def StatusResponse_def WriteHeader_def newResponseWriter_def
        StatusNoContent_def session_Save_def SetCookie_def cookieStore_Get_def)
  have again: "Status (test (fst (login A opts r newResponseWriter))
                (withCookies r2 (SetCookies (snd (login A opts r newResponseWriter))))
                newResponseWriter) = Some 204"
    if "Decode A (Body r) = Inr u" "Login A (Username u) (UserPassword u) = Inr v"
  proof -
    from accepted[OF that] obtain c where c:
      "SetCookies (snd (login A opts r newResponseWriter)) = [c]"
      "CookieName c = ''user_session''"
      "CookieValues c ''authenticated'' = Some (VBool True)"
      by blast
    have "Cookies (withCookies r2 [c]) ''user_session'' = Some (CookieValues c)"
      using withCookies_one[of r2 c] by (simp add: c(2))
    then show ?thesis
      by (simp add: test_status c)
  qed
  show ?thesis
    using bad rejected accepted again test_status[of opts r]
    by (auto simp del: split_paired_Ex)
qed

theorem auth_flow_witness:
  "Decode testAuth (Body (post ''{'')) = Inl (Error ''unexpected end of JSON input'') \<and>
   Status (snd (login testAuth defaultOptions (post ''{'') newResponseWriter)) = Some 400 \<and>
   Decode testAuth (Body (post ''wrong''))
     = Inr \<lparr>Username = ''admin'', UserPassword = ''guess''\<rparr> \<and>
   Login testAuth ''admin'' ''guess'' = Inl (Error ''invalid credentials'') \<and>
   Status (snd (login testAuth defaultOptions (post ''wrong'') newResponseWriter)) = Some 401 \<and>
   SetCookies (snd (login testAuth defaultOptions (post ''wrong'') newResponseWriter)) = [] \<and>
   Decode testAuth (Body (post ''good''))
     = Inr \<lparr>Username = ''admin'', UserPassword = ''secret''\<rparr> \<and>
   Login testAuth ''admin'' ''secret''
     = Inr \<lparr>Username = ''admin'', UserPassword = ''secret''\<rparr> \<and>
   Status (snd (login testAuth defaultOptions (post ''good'') newResponseWriter)) = Some 204 \<and>
   map (\<lambda>c. HttpOnly (CookieOptions c))
     (SetCookies (snd (login testAuth defaultOptions (post ''good'') newResponseWriter))) = [True] \<and>
   Status (test defaultOptions (post []) newResponseWriter) = Some 403"
proof -
  have d1: "Decode testAuth (Body (post ''{'')) = Inl (Error ''unexpected end of JSON input'')"
    by (simp add: testAuth_def post_def)
  have d2: "Decode testAuth (Body (post ''wrong''))
      = Inr \<lparr>Username = ''admin'', UserPassword = ''guess''\<rparr>"
    by (simp add: testAuth_def post_def)
  have d3: "Decode testAuth (Body (post ''good''))
      = Inr \<lparr>Username = ''admin'', UserPassword = ''secret''\<rparr>"
    by (simp add: testAuth_def post_def)
  have l2: "Login testAuth ''admin'' ''guess'' = Inl (Error ''invalid credentials'')"
    by (simp add: testAuth_def)
  have l3: "Login testAuth ''admin'' ''secret''
      = Inr \<lparr>Username = ''admin'', UserPassword = ''secret''\<rparr>"
    by (simp add: testAuth_def)
  have none: "Cookies (post []) ''user_session'' = None"
    by (simp add: post_def)
  show ?thesis
    using auth_flow[of testAuth "post ''{''" "Error ''unexpected end of JSON input''"
        defaultOptions]
      auth_flow[of testAuth "post ''wrong''" "Error ''invalid credentials''" defaultOptions
        "\<lparr>Username = ''admin'', UserPassword = ''guess''\<rparr>"]
      auth_flow[of testAuth "post ''good''" _ defaultOptions
        "\<lparr>Username = ''admin'', UserPassword = ''secret''\<rparr>"
        "\<lparr>Username = ''admin'', UserPassword = ''secret''\<rparr>"]
      auth_flow[of testAuth "post []" _ defaultOptions]
      d1 d2 d3 l2 l3 none
    by simp
qed

section \<open>The Redacted announcement\<close>

text \<open>
  C6. The line of the spec's first scenario, parsed with the Redacted definition and the
  settings \<^verbatim>\<open>authkey = AK\<close>, \<^verbatim>\<open>torrent_pass = TP\<close>, gives the release with name
  \<^verbatim>\<open>Artist - Album\<close>, year \<^verbatim>\<open>2008\<close>, category \<^verbatim>\<open>Single\<close>, the tags of the line, and the
  download URL with both secrets appended.
\<close>

theorem redacted_single_line_parse:
  "parse redacted redSettings redLine =
     Parsed
       \<lparr>Indexer = ''redacted'',
        TorrentName = ''Artist - Album'',
        Category = ''Single'',
        Year = ''2008'',
        Tags = ''hip.hop,rhythm.and.blues,2000s'',
        URL = ''https://redacted.ch/torrents.php?action=download&id=123&authkey=AK&torrent_pass=TP'',
        ReleaseVars =
          [(''torrentName'', ''Artist - Album''), (''year'', ''2008''), (''category'', ''Single''),
           (''releaseTags'', ''FLAC / Lossless / Log / 100% / Cue / CD''),
           (''torrentId'', ''123''),
           (''baseUrl'', ''https://redacted.ch/torrents.php?action=download&id=123''),
           (''tags'', ''hip.hop,rhythm.and.blues,2000s'')]\<rparr>"
  by code_simp


end
